theory Spec2Isabelle
  imports Complex_Main
begin

section \<open>Exceptions\<close>

text \<open>
  The classifier raises one exception class of its own, \<open>LogRegError\<close>, carrying a
  message. The other constructors are the Python built-in exceptions that can escape
  from the methods modelled here.
\<close>

datatype error =
    LogRegError string
  | ValueError
  | ZeroDivisionError
  | IndexError
  | TypeError
  | IOError

text \<open>The five messages used by the class, under the names the specification gives them.\<close>

definition NotFittedError :: error where
  "NotFittedError = LogRegError ''Parameters have not been specified!''"

definition CorruptFileError :: error where
  "CorruptFileError = LogRegError ''Parameters cannot be loaded from a file!''"

definition InvalidInputError :: error where
  "InvalidInputError = LogRegError ''Input data are wrong!''"

definition InvalidTrainingDataError :: error where
  "InvalidTrainingDataError = LogRegError ''Train data are wrong!''"

definition InvalidHyperparameterError :: error where
  "InvalidHyperparameterError = LogRegError ''Train parameters are wrong!''"

section \<open>Threshold calibration\<close>

text \<open>
  Floating-point numbers are modelled as real numbers throughout; rounding, overflow
  and NaN are outside the model. A 1-dimensional array is the list of its elements.
\<close>

record quality =
  tp :: nat
  tn :: nat
  fp :: nat
  fn :: nat

text \<open>
  \<open>__calc_quality\<close>: the loop over \<open>range(n)\<close>, \<open>n\<close> the length of \<open>y_target\<close>.
  Reading \<open>y_real[ind]\<close> past the end of \<open>y_real\<close> raises \<open>IndexError\<close>.
\<close>

fun calc_quality_loop :: "real list \<Rightarrow> real list \<Rightarrow> quality \<Rightarrow> error + quality" where
  "calc_quality_loop [] y_real q = Inr q"
| "calc_quality_loop (t # y_target) [] q = Inl IndexError"
| "calc_quality_loop (t # y_target) (r # y_real) q =
     calc_quality_loop y_target y_real
       (if t > 0 then
          (if r > 0 then q\<lparr>tp := tp q + 1\<rparr> else q\<lparr>fn := fn q + 1\<rparr>)
        else
          (if r > 0 then q\<lparr>fp := fp q + 1\<rparr> else q\<lparr>tn := tn q + 1\<rparr>))"

definition calc_quality :: "real list \<Rightarrow> real list \<Rightarrow> error + quality" where
  "calc_quality y_target y_real =
     calc_quality_loop y_target y_real \<lparr>tp = 0, tn = 0, fp = 0, fn = 0\<rparr>"

text \<open>\<open>(y_real >= th).astype(numpy.float)\<close>\<close>

definition ge_astype_float :: "real list \<Rightarrow> real \<Rightarrow> real list" where
  "ge_astype_float y_real th = map (\<lambda>p. if p \<ge> th then 1 else 0) y_real"

text \<open>\<open>map(lambda a: float(a) / 100.0, range(101))\<close>\<close>

definition candidates :: "real list" where
  "candidates = map (\<lambda>a. real a / 100) [0..<101]"

text \<open>
  The body of the loop of \<open>__calc_best_th\<close> for one candidate \<open>th\<close>, on the loop
  variables \<open>(best_th, min_dist)\<close>. Both quotients are Python float divisions and raise
  \<open>ZeroDivisionError\<close> on a zero denominator; \<open>tpr\<close> is computed first. The distance is
  the exact one here; the version with the arithmetic of floats, where rounding can break
  a tie, is \<open>th_step_fl\<close> below.
\<close>

definition th_step :: "real list \<Rightarrow> real list \<Rightarrow> real \<Rightarrow> real \<times> real \<Rightarrow> error + real \<times> real" where
  "th_step y_target y_real th s =
     (case calc_quality y_target (ge_astype_float y_real th) of
        Inl e \<Rightarrow> Inl e
      | Inr q \<Rightarrow>
          if tp q + fn q = 0 then Inl ZeroDivisionError
          else if tn q + fp q = 0 then Inl ZeroDivisionError
          else
            let tpr = real (tp q) / real (tp q + fn q);
                fpr = real (fp q) / real (tn q + fp q);
                dist = sqrt ((0 - fpr) * (0 - fpr) + (1 - tpr) * (1 - tpr))
            in if dist < snd s then Inr (th, dist) else Inr s)"

fun th_loop :: "real list \<Rightarrow> real list \<Rightarrow> real list \<Rightarrow> real \<times> real \<Rightarrow> error + real \<times> real" where
  "th_loop y_target y_real [] s = Inr s"
| "th_loop y_target y_real (th # ths) s =
     (case th_step y_target y_real th s of
        Inl e \<Rightarrow> Inl e
      | Inr s' \<Rightarrow> th_loop y_target y_real ths s')"

definition calc_best_th :: "real list \<Rightarrow> real list \<Rightarrow> error + real" where
  "calc_best_th y_target y_real =
     (case th_loop y_target y_real candidates (0, 1) of
        Inl e \<Rightarrow> Inl e
      | Inr s \<Rightarrow> Inr (fst s))"

subsection \<open>The ROC distance as the specification words it\<close>

text \<open>
  Confusion counts of the labels \<open>ys\<close> against the predictions obtained by cutting the
  probabilities \<open>ps\<close> at \<open>th\<close>; a label is positive when it is greater than zero.
\<close>

definition count_pairs :: "(real \<Rightarrow> bool) \<Rightarrow> (real \<Rightarrow> bool) \<Rightarrow> real list \<Rightarrow> real list \<Rightarrow> nat" where
  "count_pairs P Q ys rs = length (filter (\<lambda>(t, r). P t \<and> Q r) (zip ys rs))"

definition TP :: "real list \<Rightarrow> real list \<Rightarrow> real \<Rightarrow> nat" where
  "TP ys ps th = count_pairs (\<lambda>t. t > 0) (\<lambda>p. p \<ge> th) ys ps"

definition FN :: "real list \<Rightarrow> real list \<Rightarrow> real \<Rightarrow> nat" where
  "FN ys ps th = count_pairs (\<lambda>t. t > 0) (\<lambda>p. \<not> p \<ge> th) ys ps"

definition FP :: "real list \<Rightarrow> real list \<Rightarrow> real \<Rightarrow> nat" where
  "FP ys ps th = count_pairs (\<lambda>t. \<not> t > 0) (\<lambda>p. p \<ge> th) ys ps"

definition TN :: "real list \<Rightarrow> real list \<Rightarrow> real \<Rightarrow> nat" where
  "TN ys ps th = count_pairs (\<lambda>t. \<not> t > 0) (\<lambda>p. \<not> p \<ge> th) ys ps"

definition TPR :: "real list \<Rightarrow> real list \<Rightarrow> real \<Rightarrow> real" where
  "TPR ys ps th = real (TP ys ps th) / real (TP ys ps th + FN ys ps th)"

definition FPR :: "real list \<Rightarrow> real list \<Rightarrow> real \<Rightarrow> real" where
  "FPR ys ps th = real (FP ys ps th) / real (FP ys ps th + TN ys ps th)"

definition roc_dist :: "real list \<Rightarrow> real list \<Rightarrow> real \<Rightarrow> real" where
  "roc_dist ys ps th = sqrt ((FPR ys ps th)\<^sup>2 + (1 - TPR ys ps th)\<^sup>2)"

section \<open>Arrays, objective and gradient\<close>

text \<open>
  A numpy array: its shape and its elements in row-major order. \<open>nrows\<close> and \<open>ncols\<close>
  are \<open>X.shape[0]\<close> and \<open>X.shape[1]\<close> and are read only after the number of dimensions has
  been checked.
\<close>

datatype ndarray = NdArray (shape: "nat list") (elems: "real list")

definition nrows :: "ndarray \<Rightarrow> nat" where
  "nrows X = shape X ! 0"

definition ncols :: "ndarray \<Rightarrow> nat" where
  "ncols X = shape X ! 1"

definition row :: "ndarray \<Rightarrow> nat \<Rightarrow> real list" where
  "row X i = take (ncols X) (drop (i * ncols X) (elems X))"

definition rows :: "ndarray \<Rightarrow> real list list" where
  "rows X = map (row X) [0..<nrows X]"

text \<open>
  \<open>X.dot(b)\<close>, \<open>X.transpose().dot(r)\<close> and the elementwise operations. \<open>fit\<close> and
  \<open>transform\<close> check the shapes before they compute, so that the operands agree in
  length wherever these are called.
\<close>

definition dot :: "real list \<Rightarrow> real list \<Rightarrow> real" where
  "dot x w = sum_list (map2 (*) x w)"

definition X_dot :: "ndarray \<Rightarrow> real list \<Rightarrow> real list" where
  "X_dot X b = map (\<lambda>x. dot x b) (rows X)"

definition Xt_dot :: "ndarray \<Rightarrow> real list \<Rightarrow> real list" where
  "Xt_dot X r = map (\<lambda>j. sum_list (map2 (\<lambda>x ri. x ! j * ri) (rows X) r)) [0..<ncols X]"

definition vec_add :: "real list \<Rightarrow> real list \<Rightarrow> real list" where
  "vec_add u v = map2 (+) u v"

definition vec_sub :: "real list \<Rightarrow> real list \<Rightarrow> real list" where
  "vec_sub u v = map2 (-) u v"

definition vec_scale :: "real \<Rightarrow> real list \<Rightarrow> real list" where
  "vec_scale c v = map (\<lambda>x. c * x) v"

text \<open>
  \<open>1.0 / (1.0 + numpy.exp(-X.dot(b) - a))\<close>, over the reals. In floating point the
  value is rounded and can be exactly \<open>0.0\<close> or \<open>1.0\<close>; nothing below depends on its
  range.
\<close>

definition proba :: "ndarray \<Rightarrow> real \<Rightarrow> real list \<Rightarrow> real list" where
  "proba X a b = map (\<lambda>z. 1 / (1 + exp (- z - a))) (X_dot X b)"

text \<open>\<open>__calculate_log_likelihood\<close> and \<open>__calculate_gradient\<close>\<close>

definition calculate_log_likelihood :: "ndarray \<Rightarrow> real list \<Rightarrow> real \<Rightarrow> real list \<Rightarrow> real" where
  "calculate_log_likelihood X y a b =
     (let eps = 0.000001; p = proba X a b
      in sum_list (map2 (\<lambda>yi pi. yi * ln (pi + eps) + (1 - yi) * ln (1 - pi + eps)) y p))"

definition calculate_gradient :: "ndarray \<Rightarrow> real list \<Rightarrow> real \<Rightarrow> real list \<Rightarrow> real \<times> real list" where
  "calculate_gradient X y a b =
     (let p = proba X a b;
          da = sum_list (vec_sub y p);
          db = Xt_dot X (vec_sub y p)
      in (da, db))"

subsection \<open>Line search\<close>

text \<open>
  \<open>__find_best_lr\<close>. \<open>gs_loop\<close> is its \<open>while\<close> loop on the variables \<open>lr_min\<close>,
  \<open>lr_max\<close>, \<open>lr1\<close> and \<open>lr2\<close>, returning the final bracket, or \<open>None\<close> when the loop
  does not end. \<open>find_best_lr_bracket\<close> runs the loop from the initial values and
  \<open>find_best_lr\<close> applies the \<open>return\<close> expression to the final bracket. Over the reals
  the tolerance \<open>eps\<close> is positive whenever \<open>lr_max\<close> is; the version with the arithmetic
  of floats, where the product can underflow to zero, is \<open>find_best_lr_fl\<close> below.
\<close>

definition theta :: real where
  "theta = (1 + sqrt 5) / 2"

partial_function (option) gs_loop ::
  "ndarray \<Rightarrow> real list \<Rightarrow> real \<Rightarrow> real list \<Rightarrow> real \<times> real list \<Rightarrow> real \<Rightarrow>
   real \<Rightarrow> real \<Rightarrow> real \<Rightarrow> real \<Rightarrow> (real \<times> real) option" where
  "gs_loop X y a b gradient eps lr_min lr_max lr1 lr2 =
     (if \<bar>lr_min - lr_max\<bar> \<ge> eps then
        (let y1 = calculate_log_likelihood X y (a + lr1 * fst gradient)
                    (vec_add b (vec_scale lr1 (snd gradient)));
             y2 = calculate_log_likelihood X y (a + lr2 * fst gradient)
                    (vec_add b (vec_scale lr2 (snd gradient)))
         in if y1 \<le> y2 then
              gs_loop X y a b gradient eps lr1 lr_max lr2 (lr1 + (lr_max - lr1) / theta)
            else
              gs_loop X y a b gradient eps lr_min lr2 (lr2 - (lr2 - lr_min) / theta) lr1)
      else Some (lr_min, lr_max))"

definition find_best_lr_bracket ::
  "ndarray \<Rightarrow> real list \<Rightarrow> real \<Rightarrow> real list \<Rightarrow> real \<times> real list \<Rightarrow> real \<Rightarrow> (real \<times> real) option" where
  "find_best_lr_bracket X y a b gradient lr_max =
     (let lr_min = 0;
          eps = 0.00001 * (lr_max - lr_min);
          lr1 = lr_max - (lr_max - lr_min) / theta;
          lr2 = lr_min + (lr_max - lr_min) / theta
      in gs_loop X y a b gradient eps lr_min lr_max lr1 lr2)"

definition find_best_lr ::
  "ndarray \<Rightarrow> real list \<Rightarrow> real \<Rightarrow> real list \<Rightarrow> real \<times> real list \<Rightarrow> real \<Rightarrow> real option" where
  "find_best_lr X y a b gradient lr_max =
     (case find_best_lr_bracket X y a b gradient lr_max of
        None \<Rightarrow> None
      | Some (lr_min, lr_max) \<Rightarrow> Some ((lr_max - lr_min) / 2))"

section \<open>The classifier\<close>

text \<open>
  The attributes \<open>__a\<close> (bias), \<open>__b\<close> (weights) and \<open>__th\<close> (threshold) of a
  \<open>LogisticRegression\<close> object; \<open>None\<close> is Python's \<open>None\<close>.
\<close>

record logistic_regression =
  self_a :: "real option"
  self_b :: "real list option"
  self_th :: "real option"

text \<open>\<open>__init__\<close>\<close>

definition init :: logistic_regression where
  "init = \<lparr>self_a = None, self_b = None, self_th = None\<rparr>"

text \<open>
  An argument passed for \<open>X\<close> or \<open>y\<close>: \<open>None\<close>, an array (a \<open>numpy.ndarray\<close>, or a
  \<open>scipy.sparse\<close> matrix, which has the same numeric contract and is always
  2-dimensional), or any other object.
\<close>

datatype pyobj = PyNone | PyObject | Array ndarray

subsection \<open>Inference\<close>

definition transform :: "logistic_regression \<Rightarrow> pyobj \<Rightarrow> error + real list" where
  "transform self X =
     (case self_a self of
        None \<Rightarrow> Inl NotFittedError
      | Some a \<Rightarrow>
         (case self_b self of
            None \<Rightarrow> Inl NotFittedError
          | Some b \<Rightarrow>
             (case X of
                Array Xa \<Rightarrow>
                  if length (shape Xa) \<noteq> 2 then Inl InvalidInputError
                  else if ncols Xa \<noteq> length b then Inl InvalidInputError
                  else Inr (proba Xa a b)
              | _ \<Rightarrow> Inl InvalidInputError)))"

text \<open>
  \<open>predict\<close>: \<open>transform\<close> runs first; comparing its result with a threshold that is
  \<open>None\<close> raises \<open>TypeError\<close> (Python 3), unless there is no element to compare.
\<close>

definition predict :: "logistic_regression \<Rightarrow> pyobj \<Rightarrow> error + real list" where
  "predict self X =
     (case transform self X of
        Inl e \<Rightarrow> Inl e
      | Inr p \<Rightarrow>
         (case self_th self of
            None \<Rightarrow> (if p = [] then Inr [] else Inl TypeError)
          | Some th \<Rightarrow> Inr (ge_astype_float p th)))"

subsection \<open>Training\<close>

text \<open>
  The \<open>while not stop\<close> loop of \<open>fit\<close> on the variables \<open>__a\<close>, \<open>__b\<close>, \<open>f_old\<close> and
  \<open>iterations_number\<close>; \<open>out\<close> collects the pairs (iteration, objective) printed after
  each update. The result is \<open>None\<close> when the line search does not return.
\<close>

function fit_loop ::
  "ndarray \<Rightarrow> real list \<Rightarrow> real \<Rightarrow> real \<Rightarrow> int \<Rightarrow> real \<Rightarrow> real list \<Rightarrow> real \<Rightarrow> int \<Rightarrow>
   (int \<times> real) list \<Rightarrow> (real \<times> real list \<times> int \<times> (int \<times> real) list) option" where
  "fit_loop X y eps lr_max max_iters a b f_old iterations_number out =
     (let gradient = calculate_gradient X y a b in
      case find_best_lr X y a b gradient lr_max of
        None \<Rightarrow> None
      | Some lr \<Rightarrow>
          let a' = a + lr * fst gradient;
              b' = vec_add b (vec_scale lr (snd gradient));
              f_new = calculate_log_likelihood X y a' b';
              out' = out @ [(iterations_number, f_new)]
          in if f_new - f_old < eps then Some (a', b', iterations_number, out')
             else if iterations_number + 1 \<ge> max_iters then
               Some (a', b', iterations_number + 1, out')
             else fit_loop X y eps lr_max max_iters a' b' f_new (iterations_number + 1) out')"
  by pat_completeness auto
termination
  by (relation "measure (\<lambda>(X, y, eps, lr_max, max_iters, a, b, f_old, iterations_number, out).
        nat (max_iters - iterations_number))") auto

text \<open>
  \<open>fit\<close>. The two draws of \<open>numpy.random.rand\<close> are arguments: \<open>ra\<close> for the bias and
  \<open>rb j\<close> for weight \<open>j\<close>. The result pairs what the call raises (or \<open>Inr ()\<close> when it
  returns) with the object's attributes afterwards.
\<close>

definition fit ::
  "logistic_regression \<Rightarrow> real \<Rightarrow> (nat \<Rightarrow> real) \<Rightarrow> pyobj \<Rightarrow> pyobj \<Rightarrow> real \<Rightarrow> real \<Rightarrow> int \<Rightarrow>
   ((error + unit) \<times> logistic_regression) option" where
  "fit self ra rb X y eps lr_max max_iters =
     (case X of
        Array Xa \<Rightarrow>
         (case y of
            Array ya \<Rightarrow>
              if length (shape Xa) \<noteq> 2 then Some (Inl InvalidTrainingDataError, self)
              else if length (shape ya) \<noteq> 1 then Some (Inl InvalidTrainingDataError, self)
              else if nrows Xa \<noteq> shape ya ! 0 then Some (Inl InvalidTrainingDataError, self)
              else if eps \<le> 0 then Some (Inl InvalidHyperparameterError, self)
              else if lr_max \<le> 0 then Some (Inl InvalidHyperparameterError, self)
              else if max_iters < 1 then Some (Inl InvalidHyperparameterError, self)
              else
                let a0 = ra - 0.5;
                    b0 = map (\<lambda>j. rb j - 0.5) [0..<ncols Xa];
                    f_old = calculate_log_likelihood Xa (elems ya) a0 b0
                in (case fit_loop Xa (elems ya) eps lr_max max_iters a0 b0 f_old 1 [(0, f_old)] of
                      None \<Rightarrow> None
                    | Some (a, b, iterations_number, out) \<Rightarrow>
                        let self' = self\<lparr>self_a := Some a, self_b := Some b\<rparr> in
                        (case transform self' X of
                           Inl e \<Rightarrow> Some (Inl e, self')
                         | Inr p \<Rightarrow>
                            (case calc_best_th (elems ya) p of
                               Inl e \<Rightarrow> Some (Inl e, self')
                             | Inr th \<Rightarrow> Some (Inr (), self'\<lparr>self_th := Some th\<rparr>))))
          | _ \<Rightarrow> Some (Inl InvalidTrainingDataError, self))
      | _ \<Rightarrow> Some (Inl InvalidTrainingDataError, self))"

section \<open>Persistence\<close>

text \<open>
  The Python built-ins that \<open>save\<close> and \<open>load\<close> call on numbers are arguments of the
  model: \<open>int(s)\<close> and \<open>float(s)\<close>, with \<open>None\<close> for \<open>ValueError\<close>, and the text
  that \<open>'{0}'.format\<close> gives for an integer and for a float.
\<close>

record builtins =
  py_int :: "string \<Rightarrow> int option"
  py_float :: "string \<Rightarrow> real option"
  str_int :: "int \<Rightarrow> string"
  str_float :: "real \<Rightarrow> string"

text \<open>
  A text file is the string of its characters as Python's text mode delivers them
  (every line end is a newline character); the file system maps names to files.
  White space is what \<open>str.isspace\<close> accepts among the first 256 code points.
\<close>

type_synonym files = "string \<rightharpoonup> string"

definition is_space :: "char \<Rightarrow> bool" where
  "is_space c \<longleftrightarrow>
     c = CHR 0x09 \<or> c = CHR 0x0A \<or> c = CHR 0x0B \<or> c = CHR 0x0C \<or> c = CHR 0x0D \<or>
     c = CHR 0x1C \<or> c = CHR 0x1D \<or> c = CHR 0x1E \<or> c = CHR 0x1F \<or> c = CHR 0x20 \<or>
     c = CHR 0x85 \<or> c = CHR 0xA0"

text \<open>\<open>str.strip()\<close>\<close>

definition strip :: "string \<Rightarrow> string" where
  "strip s = rev (dropWhile is_space (rev (dropWhile is_space s)))"

text \<open>\<open>str.split()\<close>: the maximal runs of characters that are not white space.\<close>

fun split_from :: "string \<Rightarrow> string \<Rightarrow> string list" where
  "split_from cur [] = (if cur = [] then [] else [cur])"
| "split_from cur (c # cs) =
     (if is_space c then (if cur = [] then split_from [] cs else cur # split_from [] cs)
      else split_from (cur @ [c]) cs)"

definition split :: "string \<Rightarrow> string list" where
  "split s = split_from [] s"

text \<open>\<open>str.lower()\<close> on the letters that can matter for a comparison with ASCII words.\<close>

definition lower_char :: "char \<Rightarrow> char" where
  "lower_char c =
     (case map_of (zip ''ABCDEFGHIJKLMNOPQRSTUVWXYZ'' ''abcdefghijklmnopqrstuvwxyz'') c of
        None \<Rightarrow> c
      | Some l \<Rightarrow> l)"

definition lower :: "string \<Rightarrow> string" where
  "lower s = map lower_char s"

text \<open>
  The successive results of \<open>fp.readline()\<close> until it returns the empty string: the
  lines of the file, each with its newline, the last one possibly without.
\<close>

fun lines_from :: "string \<Rightarrow> string \<Rightarrow> string list" where
  "lines_from cur [] = (if cur = [] then [] else [cur])"
| "lines_from cur (c # cs) =
     (if c = CHR 0x0A then (cur @ [c]) # lines_from [] cs else lines_from (cur @ [c]) cs)"

definition readlines :: "string \<Rightarrow> string list" where
  "readlines s = lines_from [] s"

subsection \<open>save\<close>

text \<open>Opening the file for writing is taken to succeed.\<close>

definition file_text :: "builtins \<Rightarrow> real \<Rightarrow> real list \<Rightarrow> real \<Rightarrow> string" where
  "file_text lib a b th =
     ''Input size '' @ str_int lib (int (length b)) @ ''\<newline>\<newline>'' @
     concat (map (\<lambda>w. str_float lib w @ ''\<newline>'') b) @
     ''\<newline>'' @ str_float lib a @ ''\<newline>\<newline>'' @ str_float lib th @ ''\<newline>''"

definition save :: "builtins \<Rightarrow> logistic_regression \<Rightarrow> string \<Rightarrow> files \<Rightarrow> (error + unit) \<times> files" where
  "save lib self file_name fs =
     (case self_a self of
        None \<Rightarrow> (Inl NotFittedError, fs)
      | Some a \<Rightarrow>
         (case self_b self of
            None \<Rightarrow> (Inl NotFittedError, fs)
          | Some b \<Rightarrow>
             (case self_th self of
                None \<Rightarrow> (Inl NotFittedError, fs)
              | Some th \<Rightarrow> (Inr (), fs(file_name \<mapsto> file_text lib a b th)))))"

subsection \<open>load\<close>

text \<open>
  The \<open>while\<close> loop of \<open>load\<close> over the lines still to read, on the variables
  \<open>input_size\<close>, \<open>ind\<close> and the object's attributes, followed by the check after the
  loop. The result pairs what is raised (or \<open>Inr ()\<close>) with the attributes afterwards.
  \<open>np_zeros n\<close> is \<open>numpy.zeros(shape=(n,))\<close>: the array, or the error it raises when
  an array of that size cannot be made.
\<close>

fun load_loop ::
  "(nat \<Rightarrow> error + real list) \<Rightarrow> builtins \<Rightarrow> string list \<Rightarrow> int \<Rightarrow> int \<Rightarrow> logistic_regression \<Rightarrow>
   (error + unit) \<times> logistic_regression" where
  "load_loop np_zeros lib [] input_size ind self =
     (if ind \<le> input_size + 1 then (Inl CorruptFileError, self) else (Inr (), self))"
| "load_loop np_zeros lib (cur_line # rest) input_size ind self =
     (let prepared_line = strip cur_line in
      if length prepared_line > 0 then
        if input_size \<le> 0 then
          (let parts_of_line = split prepared_line in
           if length parts_of_line \<noteq> 3 then (Inl CorruptFileError, self)
           else if lower (parts_of_line ! 0) \<noteq> ''input'' then (Inl CorruptFileError, self)
           else if lower (parts_of_line ! 1) \<noteq> ''size'' then (Inl CorruptFileError, self)
           else
             (case py_int lib (parts_of_line ! 2) of
                None \<Rightarrow> (Inl ValueError, self)
              | Some n \<Rightarrow>
                  if n \<le> 0 then (Inl CorruptFileError, self)
                  else
                    (case np_zeros (nat n) of
                       Inl e \<Rightarrow> (Inl e, self)
                     | Inr zeros \<Rightarrow>
                         load_loop np_zeros lib rest n ind
                           (self\<lparr>self_b := Some zeros, self_a := Some 0, self_th := Some 0.5\<rparr>))))
        else
          if ind > input_size + 1 then (Inl CorruptFileError, self)
          else if ind < input_size then
            (case py_float lib prepared_line of
               None \<Rightarrow> (Inl ValueError, self)
             | Some v \<Rightarrow>
                (case self_b self of
                   None \<Rightarrow> (Inl TypeError, self)
                 | Some b \<Rightarrow>
                     load_loop np_zeros lib rest input_size (ind + 1) (self\<lparr>self_b := Some (b[nat ind := v])\<rparr>)))
          else if ind = input_size then
            (case py_float lib prepared_line of
               None \<Rightarrow> (Inl ValueError, self)
             | Some v \<Rightarrow> load_loop np_zeros lib rest input_size (ind + 1) (self\<lparr>self_a := Some v\<rparr>))
          else
            (case py_float lib prepared_line of
               None \<Rightarrow> (Inl ValueError, self)
             | Some v \<Rightarrow>
                 if v < 0 then (Inl CorruptFileError, self\<lparr>self_th := Some v\<rparr>)
                 else if v > 1 then (Inl CorruptFileError, self\<lparr>self_th := Some v\<rparr>)
                 else load_loop np_zeros lib rest input_size (ind + 1) (self\<lparr>self_th := Some v\<rparr>))
      else load_loop np_zeros lib rest input_size ind self)"

definition load_np ::
  "(nat \<Rightarrow> error + real list) \<Rightarrow> builtins \<Rightarrow> logistic_regression \<Rightarrow> string \<Rightarrow> files \<Rightarrow>
   (error + unit) \<times> logistic_regression" where
  "load_np np_zeros lib self file_name fs =
     (case fs file_name of
        None \<Rightarrow> (Inl IOError, self)
      | Some text \<Rightarrow> load_loop np_zeros lib (readlines text) (- 1) 0 self)"

text \<open>\<open>load\<close> where every array the header asks for can be made.\<close>

definition load :: "builtins \<Rightarrow> logistic_regression \<Rightarrow> string \<Rightarrow> files \<Rightarrow> (error + unit) \<times> logistic_regression" where
  "load lib self file_name fs = load_np (\<lambda>n. Inr (replicate n 0)) lib self file_name fs"

subsection \<open>Files as the claims describe them\<close>

definition nonblank :: "string \<Rightarrow> bool" where
  "nonblank l \<longleftrightarrow> strip l \<noteq> []"

text \<open>The line \<open>h\<close> is a header declaring the positive dimensionality \<open>d\<close>.\<close>

definition header_declares :: "builtins \<Rightarrow> string \<Rightarrow> int \<Rightarrow> bool" where
  "header_declares lib h d \<longleftrightarrow>
     (case split (strip h) of
        [w1, w2, w3] \<Rightarrow> lower w1 = ''input'' \<and> lower w2 = ''size'' \<and> py_int lib w3 = Some d \<and> 0 < d
      | _ \<Rightarrow> False)"

text \<open>
  What Python guarantees of the text of a number: it is not empty, has no white space,
  and reads back as the number.
\<close>

definition int_text_ok :: "builtins \<Rightarrow> int \<Rightarrow> bool" where
  "int_text_ok lib n \<longleftrightarrow>
     str_int lib n \<noteq> [] \<and> list_all (\<lambda>c. \<not> is_space c) (str_int lib n) \<and>
     py_int lib (str_int lib n) = Some n"

definition float_text_ok :: "builtins \<Rightarrow> real \<Rightarrow> bool" where
  "float_text_ok lib x \<longleftrightarrow>
     str_float lib x \<noteq> [] \<and> list_all (\<lambda>c. \<not> is_space c) (str_float lib x) \<and>
     py_float lib (str_float lib x) = Some x"

text \<open>
  A table of \<open>int\<close>, \<open>float\<close> and \<open>format\<close> on the literals used in the examples; on
  these it agrees with Python. It serves only to instantiate the theorems.
\<close>

definition example_lib :: builtins where
  "example_lib =
     \<lparr>py_int = (\<lambda>s. if s = ''0'' then Some 0 else if s = ''1'' then Some 1
                     else if s = ''3'' then Some 3
                     else if s = ''99999999999999999999'' then Some 99999999999999999999
                     else None),
      py_float = (\<lambda>s. if s = ''0.0'' then Some 0 else if s = ''0.5'' then Some (1/2)
                       else if s = ''1.0'' then Some 1 else None),
      str_int = (\<lambda>n. if n = 0 then ''0'' else if n = 3 then ''3'' else ''1''),
      str_float = (\<lambda>x. if x = 0 then ''0.0'' else if x = 1/2 then ''0.5'' else ''1.0'')\<rparr>"

text \<open>
  \<open>numpy.zeros\<close> on the sizes used in the examples: the sizes up to 3 give an array,
  and the size \<open>99999999999999999999\<close> is beyond the largest index and raises
  \<open>ValueError\<close>.
\<close>

definition example_zeros :: "nat \<Rightarrow> error + real list" where
  "example_zeros n = (if n \<le> 3 then Inr (replicate n 0) else Inl ValueError)"

section \<open>Floating-point arithmetic as a parameter\<close>

text \<open>
  Where rounding decides what the code does, the arithmetic of Python's floats is an
  argument of the model: the results of \<open>+\<close>, \<open>-\<close>, \<open>*\<close>, \<open>/\<close> and \<open>math.sqrt\<close> on
  finite floats, each float standing for the real number it denotes. Comparisons of
  floats and \<open>abs\<close> are exact and need no parameter.
\<close>

record float_ops =
  fadd :: "real \<Rightarrow> real \<Rightarrow> real"
  fsub :: "real \<Rightarrow> real \<Rightarrow> real"
  fmul :: "real \<Rightarrow> real \<Rightarrow> real"
  fdiv :: "real \<Rightarrow> real \<Rightarrow> real"
  fsqrt :: "real \<Rightarrow> real"

text \<open>The arithmetic without rounding, which the rest of the model uses.\<close>

definition exact_ops :: float_ops where
  "exact_ops = \<lparr>fadd = (+), fsub = (-), fmul = (*), fdiv = (/), fsqrt = sqrt\<rparr>"

subsection \<open>Threshold calibration in floating point\<close>

text \<open>
  \<open>__calc_best_th\<close> again, with the arithmetic of the candidates, rates and distance
  taken from \<open>fl\<close>. The counts are integers and their conversion to float is exact.
\<close>

definition candidates_fl :: "float_ops \<Rightarrow> real list" where
  "candidates_fl fl = map (\<lambda>a. fdiv fl (real a) 100) [0..<101]"

definition th_step_fl ::
  "float_ops \<Rightarrow> real list \<Rightarrow> real list \<Rightarrow> real \<Rightarrow> real \<times> real \<Rightarrow> error + real \<times> real" where
  "th_step_fl fl y_target y_real th s =
     (case calc_quality y_target (ge_astype_float y_real th) of
        Inl e \<Rightarrow> Inl e
      | Inr q \<Rightarrow>
          if tp q + fn q = 0 then Inl ZeroDivisionError
          else if tn q + fp q = 0 then Inl ZeroDivisionError
          else
            let tpr = fdiv fl (real (tp q)) (real (tp q + fn q));
                fpr = fdiv fl (real (fp q)) (real (tn q + fp q));
                dist = fsqrt fl (fadd fl (fmul fl (fsub fl 0 fpr) (fsub fl 0 fpr))
                                         (fmul fl (fsub fl 1 tpr) (fsub fl 1 tpr)))
            in if dist < snd s then Inr (th, dist) else Inr s)"

fun th_loop_fl ::
  "float_ops \<Rightarrow> real list \<Rightarrow> real list \<Rightarrow> real list \<Rightarrow> real \<times> real \<Rightarrow> error + real \<times> real" where
  "th_loop_fl fl y_target y_real [] s = Inr s"
| "th_loop_fl fl y_target y_real (th # ths) s =
     (case th_step_fl fl y_target y_real th s of
        Inl e \<Rightarrow> Inl e
      | Inr s' \<Rightarrow> th_loop_fl fl y_target y_real ths s')"

definition calc_best_th_fl :: "float_ops \<Rightarrow> real list \<Rightarrow> real list \<Rightarrow> error + real" where
  "calc_best_th_fl fl y_target y_real =
     (case th_loop_fl fl y_target y_real (candidates_fl fl) (0, 1) of
        Inl e \<Rightarrow> Inl e
      | Inr s \<Rightarrow> Inr (fst s))"

text \<open>
  The distance of a candidate as the floating-point arithmetic computes it from the
  confusion counts.
\<close>

definition computed_dist :: "float_ops \<Rightarrow> real list \<Rightarrow> real list \<Rightarrow> real \<Rightarrow> real" where
  "computed_dist fl ys ps th =
     (let tpr = fdiv fl (real (TP ys ps th)) (real (TP ys ps th + FN ys ps th));
          fpr = fdiv fl (real (FP ys ps th)) (real (TN ys ps th + FP ys ps th))
      in fsqrt fl (fadd fl (fmul fl (fsub fl 0 fpr) (fsub fl 0 fpr))
                           (fmul fl (fsub fl 1 tpr) (fsub fl 1 tpr))))"

text \<open>
  What the calibration needs of the arithmetic, and what floats provide: a quotient of
  equal counts is 1, the distance of the rates \<open>(1, 1)\<close> is computed as 1, the first
  candidate is 0, and the candidates increase.
\<close>

definition float_ops_ok :: "float_ops \<Rightarrow> bool" where
  "float_ops_ok fl \<longleftrightarrow>
     (\<forall>n. 0 < n \<longrightarrow> fdiv fl (real n) (real n) = 1) \<and>
     fsqrt fl (fadd fl (fmul fl (fsub fl 0 1) (fsub fl 0 1))
                       (fmul fl (fsub fl 1 1) (fsub fl 1 1))) = 1 \<and>
     fdiv fl 0 100 = 0 \<and>
     sorted_wrt (<) (candidates_fl fl)"

subsection \<open>Line search in floating point\<close>

text \<open>
  \<open>__find_best_lr\<close> again, with its own arithmetic taken from \<open>fl\<close>. \<open>obj lr\<close> stands
  for the value of \<open>__calculate_log_likelihood\<close> at the step \<open>lr\<close>; the result is \<open>None\<close>
  when the \<open>while\<close> loop does not end.
\<close>

partial_function (option) gs_loop_fl ::
  "float_ops \<Rightarrow> (real \<Rightarrow> real) \<Rightarrow> real \<Rightarrow> real \<Rightarrow> real \<Rightarrow> real \<Rightarrow> real \<Rightarrow> real \<Rightarrow>
   (real \<times> real) option" where
  "gs_loop_fl fl obj theta' eps lr_min lr_max lr1 lr2 =
     (if \<bar>fsub fl lr_min lr_max\<bar> \<ge> eps then
        (let y1 = obj lr1;
             y2 = obj lr2
         in if y1 \<le> y2 then
              gs_loop_fl fl obj theta' eps lr1 lr_max lr2
                (fadd fl lr1 (fdiv fl (fsub fl lr_max lr1) theta'))
            else
              gs_loop_fl fl obj theta' eps lr_min lr2
                (fsub fl lr2 (fdiv fl (fsub fl lr2 lr_min) theta')) lr1)
      else Some (lr_min, lr_max))"

definition find_best_lr_fl :: "float_ops \<Rightarrow> (real \<Rightarrow> real) \<Rightarrow> real \<Rightarrow> real option" where
  "find_best_lr_fl fl obj lr_max =
     (let lr_min = 0;
          theta' = fdiv fl (fadd fl 1 (fsqrt fl 5)) 2;
          eps = fmul fl 0.00001 (fsub fl lr_max lr_min);
          lr1 = fsub fl lr_max (fdiv fl (fsub fl lr_max lr_min) theta');
          lr2 = fadd fl lr_min (fdiv fl (fsub fl lr_max lr_min) theta')
      in case gs_loop_fl fl obj theta' eps lr_min lr_max lr1 lr2 of
           None \<Rightarrow> None
         | Some (lr_min, lr_max) \<Rightarrow> Some (fdiv fl (fsub fl lr_max lr_min) 2))"

subsection \<open>Floats of the examples\<close>

text \<open>
  The arithmetic of Python's floats on the operands of the examples, each float written
  as the fraction it denotes. The entries are the results that are rounded:
  \<open>1.0 / 5.0 = 0.2 = 3602879701896397 / 2\<^sup>5\<^sup>4\<close>,
  \<open>4.0 / 5.0 = 0.8 = 3602879701896397 / 2\<^sup>5\<^sup>2\<close>,
  \<open>1.0 / 100.0 = 0.01 = 5764607523034235 / 2\<^sup>5\<^sup>9\<close>,
  \<open>26.0 / 100.0 = 0.26 = 1170935903116329 / 2\<^sup>5\<^sup>2\<close>,
  \<open>(-0.2) * (-0.2) = 0.04000000000000001 = 1441151880758559 / 2\<^sup>5\<^sup>5\<close>, whose square root
  is \<open>0.2\<close>, \<open>1.0 - 0.8 = 0.19999999999999996 = 900719925474099 / 2\<^sup>5\<^sup>2\<close> (exact), whose
  square is \<open>0.03999999999999998 = 720575940379279 / 2\<^sup>5\<^sup>4\<close>, with square root
  \<open>0.19999999999999996\<close>, and \<open>0.00001 * 1e-320 = 0.0\<close>, where \<open>1e-320 = 253 / 2\<^sup>1\<^sup>0\<^sup>7\<^sup>1\<close>.
  Every other result is the exact one. The examples use it only where the exact result
  is a float, and for the other candidates \<open>a / 100\<close>, which compare with the
  probabilities \<open>0\<close>, \<open>0.25\<close> and \<open>1\<close> as the floats nearest to them do.
\<close>

definition example_fl :: float_ops where
  "example_fl =
     \<lparr>fadd = (+),
      fsub = (-),
      fmul = (\<lambda>x y.
        if x = - (3602879701896397 / 2 ^ 54) \<and> y = - (3602879701896397 / 2 ^ 54)
          then 1441151880758559 / 2 ^ 55
        else if x = 900719925474099 / 2 ^ 52 \<and> y = 900719925474099 / 2 ^ 52
          then 720575940379279 / 2 ^ 54
        else if x = 0.00001 \<and> y = 253 / 2 ^ 1071 then 0
        else x * y),
      fdiv = (\<lambda>x y.
        if x = 1 \<and> y = 5 then 3602879701896397 / 2 ^ 54
        else if x = 4 \<and> y = 5 then 3602879701896397 / 2 ^ 52
        else if x = 1 \<and> y = 100 then 5764607523034235 / 2 ^ 59
        else if x = 26 \<and> y = 100 then 1170935903116329 / 2 ^ 52
        else x / y),
      fsqrt = (\<lambda>x.
        if x = 1441151880758559 / 2 ^ 55 then 3602879701896397 / 2 ^ 54
        else if x = 720575940379279 / 2 ^ 54 then 900719925474099 / 2 ^ 52
        else sqrt x)\<rparr>"

section \<open>Auxiliary notions used in the proofs\<close>

text \<open>The loop without the failure cases: keep the first strict minimum.\<close>

definition keep_min :: "(real \<Rightarrow> real) \<Rightarrow> real \<Rightarrow> real \<times> real \<Rightarrow> real \<times> real" where
  "keep_min d th s = (if d th < snd s then (th, d th) else s)"

definition first_min :: "(real \<Rightarrow> real) \<Rightarrow> real list \<Rightarrow> real \<times> real \<Rightarrow> bool" where
  "first_min d seen s \<longleftrightarrow>
     fst s \<in> set seen \<and> snd s = d (fst s) \<and>
     (\<forall>c\<in>set seen. d (fst s) \<le> d c \<and> (d c = d (fst s) \<longrightarrow> fst s \<le> c))"

text \<open>The golden-section invariant on the loop variables.\<close>

definition gs_inv :: "real \<Rightarrow> real \<Rightarrow> real \<Rightarrow> real \<Rightarrow> bool" where
  "gs_inv lr_min lr_max lr1 lr2 \<longleftrightarrow>
     lr_min \<le> lr_max \<and>
     lr1 = lr_max - (lr_max - lr_min) / theta \<and>
     lr2 = lr_min + (lr_max - lr_min) / theta"

text \<open>
  The stopping rule of the training loop, read off a run: the pairs printed from
  iteration \<open>it\<close> on, the objective \<open>f_old\<close> before them, and the final iteration count.
\<close>

fun stop_rule :: "real \<Rightarrow> int \<Rightarrow> real \<Rightarrow> int \<Rightarrow> (int \<times> real) list \<Rightarrow> int \<Rightarrow> bool" where
  "stop_rule eps max_iters f_old it [] it' = False"
| "stop_rule eps max_iters f_old it ((i, f_new) # rest) it' =
     (i = it \<and>
      (if f_new - f_old < eps then rest = [] \<and> it' = it
       else if it + 1 \<ge> max_iters then rest = [] \<and> it' = it + 1
       else stop_rule eps max_iters f_new (it + 1) rest it'))"

section \<open>Properties of threshold calibration\<close>

lemma calc_quality_loop_count:
  "length ys = length rs \<Longrightarrow>
   calc_quality_loop ys rs q =
     Inr \<lparr>tp = tp q + count_pairs (\<lambda>t. t > 0) (\<lambda>r. r > 0) ys rs,
          tn = tn q + count_pairs (\<lambda>t. \<not> t > 0) (\<lambda>r. \<not> r > 0) ys rs,
          fp = fp q + count_pairs (\<lambda>t. \<not> t > 0) (\<lambda>r. r > 0) ys rs,
          fn = fn q + count_pairs (\<lambda>t. t > 0) (\<lambda>r. \<not> r > 0) ys rs\<rparr>"
proof (induction ys rs arbitrary: q rule: list_induct2)
  case Nil
  then show ?case by (simp add: count_pairs_def)
next
  case (Cons t ys r rs)
  show ?case
    by (simp add: Cons.IH count_pairs_def)
qed

lemma count_pairs_ge_astype:
  "count_pairs P (\<lambda>r. r > 0) ys (ge_astype_float ps th) = count_pairs P (\<lambda>p. p \<ge> th) ys ps"
  "count_pairs P (\<lambda>r. \<not> r > 0) ys (ge_astype_float ps th) = count_pairs P (\<lambda>p. \<not> p \<ge> th) ys ps"
  unfolding count_pairs_def ge_astype_float_def
  by (induction ys ps rule: list_induct2') auto

lemma calc_quality_counts:
  assumes "length ys = length ps"
  shows "calc_quality ys (ge_astype_float ps th) =
     Inr \<lparr>tp = TP ys ps th, tn = TN ys ps th, fp = FP ys ps th, fn = FN ys ps th\<rparr>"
proof -
  have len: "length ys = length (ge_astype_float ps th)"
    using assms by (simp add: ge_astype_float_def)
  show ?thesis
    unfolding calc_quality_def calc_quality_loop_count [OF len]
    by (simp add: count_pairs_ge_astype TP_def TN_def FP_def FN_def)
qed

lemma count_pairs_split:
  "length ys = length rs \<Longrightarrow>
   count_pairs P Q ys rs + count_pairs P (\<lambda>r. \<not> Q r) ys rs = length (filter P ys)"
  unfolding count_pairs_def
  by (induction ys rs rule: list_induct2) auto

lemma positives:
  "length ys = length ps \<Longrightarrow> TP ys ps th + FN ys ps th = length (filter (\<lambda>t. t > 0) ys)"
  by (simp add: TP_def FN_def count_pairs_split)

lemma negatives:
  "length ys = length ps \<Longrightarrow> FP ys ps th + TN ys ps th = length (filter (\<lambda>t. \<not> t > 0) ys)"
  by (simp add: FP_def TN_def count_pairs_split)

lemma fold_keep_min:
  "sorted_wrt (<) (seen @ ths) \<Longrightarrow> first_min d seen s \<Longrightarrow>
   first_min d (seen @ ths) (fold (keep_min d) ths s)"
proof (induction ths arbitrary: seen s)
  case Nil
  then show ?case by simp
next
  case (Cons th ths)
  have srt: "sorted_wrt (<) ((seen @ [th]) @ ths)"
    using Cons.prems(1) by simp
  have lt: "\<forall>c\<in>set seen. c < th"
    using Cons.prems(1) by (auto simp: sorted_wrt_append)
  have step: "first_min d (seen @ [th]) (keep_min d th s)"
    using Cons.prems(2) lt unfolding first_min_def keep_min_def
    by (auto simp: less_le_not_le) 
  show ?case
    using Cons.IH [OF srt step] by simp
qed

lemma candidates_Cons: "candidates = 0 # map (\<lambda>a. real a / 100) [1..<101]"
  by (simp add: candidates_def upt_conv_Cons)

lemma th_step_no_positive:
  assumes len: "length ys = length ps" and "\<forall>y\<in>set ys. \<not> y > 0"
  shows "th_step ys ps th s = Inl ZeroDivisionError"
proof -
  have "TP ys ps th + FN ys ps th = 0"
    using assms(2) by (simp add: positives [OF len] filter_empty_conv)
  then show ?thesis
    unfolding th_step_def calc_quality_counts [OF len] by simp
qed

lemma th_step_no_negative:
  assumes len: "length ys = length ps" and "\<forall>y\<in>set ys. y > 0"
  shows "th_step ys ps th s = Inl ZeroDivisionError"
proof -
  have "FP ys ps th + TN ys ps th = 0"
    using assms(2) by (simp add: negatives [OF len] filter_empty_conv)
  then show ?thesis
    unfolding th_step_def calc_quality_counts [OF len] by simp
qed

lemma calc_best_th_raises:
  assumes "length ys = length ps"
    and "(\<forall>y\<in>set ys. y > 0) \<or> (\<forall>y\<in>set ys. \<not> y > 0)"
  shows "calc_best_th ys ps = Inl ZeroDivisionError"
  using assms
  by (auto simp: calc_best_th_def candidates_Cons th_step_no_positive th_step_no_negative)

section \<open>Properties of the line search\<close>

lemma theta_gt_1: "1 < theta"
proof -
  have "1 < sqrt 5" by (simp add: real_less_rsqrt)
  then show ?thesis by (simp add: theta_def)
qed

lemma theta_square: "theta * theta = theta + 1"
proof -
  have "sqrt 5 * sqrt 5 = 5" by simp
  then show ?thesis
    unfolding theta_def by (simp add: field_simps)
qed

lemma theta_inverse: "1 / theta = theta - 1"
proof -
  have "theta \<noteq> 0" using theta_gt_1 by simp
  then show ?thesis using theta_square by (simp add: field_simps)
qed

lemma theta_pos: "0 < theta"
  using theta_gt_1 by simp

lemma shrink_le: "0 \<le> w \<Longrightarrow> w / theta \<le> w"
proof -
  assume w: "0 \<le> w"
  have "1 * w \<le> theta * w"
    by (rule mult_right_mono) (use theta_gt_1 w in simp_all)
  then show ?thesis using theta_pos by (simp add: field_simps)
qed

lemma shrink_twice: "w / theta / theta = w - w / theta"
proof -
  have "w / theta / theta = w * (1 / theta) * (1 / theta)" by simp
  also have "\<dots> = w * ((theta - 1) * (theta - 1))" by (simp only: theta_inverse mult.assoc)
  also have "(theta - 1) * (theta - 1) = theta * theta - 2 * theta + 1" by (simp add: algebra_simps)
  also have "\<dots> = 1 - (theta - 1)" by (simp add: theta_square)
  also have "\<dots> = 1 - 1 / theta" by (simp only: theta_inverse)
  finally show ?thesis by (simp add: algebra_simps)
qed

lemma gs_inv_up:
  assumes "gs_inv lo hi l1 l2"
  shows "gs_inv l1 hi l2 (l1 + (hi - l1) / theta)" and "hi - l1 = (hi - lo) / theta"
    and "lo \<le> l1"
proof -
  let ?w = "hi - lo"
  have w: "0 \<le> ?w" and l1: "l1 = hi - ?w / theta" and l2: "l2 = lo + ?w / theta"
    using assms by (simp_all add: gs_inv_def)
  show width: "hi - l1 = ?w / theta" by (simp add: l1)
  have "0 \<le> ?w / theta" using w theta_pos by simp
  then have le: "l1 \<le> hi" by (simp add: l1)
  show "lo \<le> l1" using shrink_le [OF w] by (simp add: l1)
  have "l2 = hi - ?w / theta / theta"
    unfolding shrink_twice by (simp add: l2)
  then have "l2 = hi - (hi - l1) / theta" by (simp add: width)
  then show "gs_inv l1 hi l2 (l1 + (hi - l1) / theta)"
    using le by (simp add: gs_inv_def)
qed

lemma gs_inv_down:
  assumes "gs_inv lo hi l1 l2"
  shows "gs_inv lo l2 (l2 - (l2 - lo) / theta) l1" and "l2 - lo = (hi - lo) / theta"
    and "l2 \<le> hi"
proof -
  let ?w = "hi - lo"
  have w: "0 \<le> ?w" and l1: "l1 = hi - ?w / theta" and l2: "l2 = lo + ?w / theta"
    using assms by (simp_all add: gs_inv_def)
  show width: "l2 - lo = ?w / theta" by (simp add: l2)
  have "0 \<le> ?w / theta" using w theta_pos by simp
  then have le: "lo \<le> l2" by (simp add: l2)
  show "l2 \<le> hi" using shrink_le [OF w] by (simp add: l2)
  have "l1 = lo + ?w / theta / theta"
    unfolding shrink_twice by (simp add: l1)
  then have "l1 = lo + (l2 - lo) / theta" by (simp add: width)
  then show "gs_inv lo l2 (l2 - (l2 - lo) / theta) l1"
    using le by (simp add: gs_inv_def)
qed

lemma gs_loop_terminates:
  "gs_inv lo hi l1 l2 \<Longrightarrow> (hi - lo) / theta ^ n < eps \<Longrightarrow>
   \<exists>lo' hi'. gs_loop X y a b g eps lo hi l1 l2 = Some (lo', hi') \<and>
     lo \<le> lo' \<and> lo' \<le> hi' \<and> hi' \<le> hi \<and> hi' - lo' < eps"
proof (induction n arbitrary: lo hi l1 l2)
  case 0
  then have "lo \<le> hi" "hi - lo < eps" by (simp_all add: gs_inv_def)
  then show ?case
    by (subst gs_loop.simps) simp
next
  case (Suc n)
  have le: "lo \<le> hi" using Suc.prems(1) by (simp add: gs_inv_def)
  show ?case
  proof (cases "\<bar>lo - hi\<bar> \<ge> eps")
    case False
    then show ?thesis using le by (subst gs_loop.simps) simp
  next
    case True
    let ?y1 = "calculate_log_likelihood X y (a + l1 * fst g) (vec_add b (vec_scale l1 (snd g)))"
    let ?y2 = "calculate_log_likelihood X y (a + l2 * fst g) (vec_add b (vec_scale l2 (snd g)))"
    have small: "(hi - lo) / theta / theta ^ n < eps"
      using Suc.prems(2) by (simp add: field_simps)
    show ?thesis
    proof (cases "?y1 \<le> ?y2")
      case up: True
      note inv = gs_inv_up [OF Suc.prems(1)]
      have "(hi - l1) / theta ^ n < eps" using small by (simp only: inv(2))
      from Suc.IH [OF inv(1) this] obtain lo' hi' where
        r: "gs_loop X y a b g eps l1 hi l2 (l1 + (hi - l1) / theta) = Some (lo', hi')"
          "l1 \<le> lo'" "lo' \<le> hi'" "hi' \<le> hi" "hi' - lo' < eps"
        by blast
      have "gs_loop X y a b g eps lo hi l1 l2 = Some (lo', hi')"
        using True up r(1) by (subst gs_loop.simps) (simp add: Let_def)
      then show ?thesis using r inv(3) by auto
    next
      case down: False
      note inv = gs_inv_down [OF Suc.prems(1)]
      have "(l2 - lo) / theta ^ n < eps" using small by (simp only: inv(2))
      from Suc.IH [OF inv(1) this] obtain lo' hi' where
        r: "gs_loop X y a b g eps lo l2 (l2 - (l2 - lo) / theta) l1 = Some (lo', hi')"
          "lo \<le> lo'" "lo' \<le> hi'" "hi' \<le> l2" "hi' - lo' < eps"
        by blast
      have "gs_loop X y a b g eps lo hi l1 l2 = Some (lo', hi')"
        using True down r(1) by (subst gs_loop.simps) (simp add: Let_def)
      then show ?thesis using r inv(3) by auto
    qed
  qed
qed

lemma width_shrinks: "0 < eps \<Longrightarrow> \<exists>n. w / theta ^ n < eps"
proof -
  assume e: "0 < eps"
  obtain n where "w / eps < theta ^ n"
    using real_arch_pow [OF theta_gt_1] by blast
  then have "w / theta ^ n < eps"
    using e theta_pos by (simp add: field_simps)
  then show ?thesis ..
qed

lemma find_best_lr_bracket_returns:
  assumes "0 < lr_max"
  shows "\<exists>lo hi. find_best_lr_bracket X y a b g lr_max = Some (lo, hi) \<and>
           0 \<le> lo \<and> lo \<le> hi \<and> hi \<le> lr_max \<and> hi - lo < 0.00001 * lr_max"
proof -
  have inv: "gs_inv 0 lr_max (lr_max - (lr_max - 0) / theta) (0 + (lr_max - 0) / theta)"
    using assms by (simp add: gs_inv_def)
  have "0 < 0.00001 * (lr_max - 0)" using assms by simp
  from width_shrinks [OF this] obtain n where
    "(lr_max - 0) / theta ^ n < 0.00001 * (lr_max - 0)" by blast
  from gs_loop_terminates [OF inv this] show ?thesis
    by (simp add: find_best_lr_bracket_def Let_def)
qed

lemma find_best_lr_returns:
  assumes "0 < lr_max"
  shows "\<exists>lr. find_best_lr X y a b g lr_max = Some lr \<and> 0 \<le> lr \<and> lr \<le> lr_max"
proof -
  obtain lo hi where r: "find_best_lr_bracket X y a b g lr_max = Some (lo, hi)"
      "0 \<le> lo" "lo \<le> hi" "hi \<le> lr_max"
    using find_best_lr_bracket_returns [OF assms] by blast
  have "find_best_lr X y a b g lr_max = Some ((hi - lo) / 2)"
    by (simp add: find_best_lr_def r(1))
  moreover have "0 \<le> (hi - lo) / 2" "(hi - lo) / 2 \<le> lr_max"
    using r(2-4) by simp_all
  ultimately show ?thesis by blast
qed

lemma gs_loop_flat:
  assumes flat: "\<And>l l'. calculate_log_likelihood X y (a + l * fst g) (vec_add b (vec_scale l (snd g)))
                 \<le> calculate_log_likelihood X y (a + l' * fst g) (vec_add b (vec_scale l' (snd g)))"
  shows "gs_inv lo hi l1 l2 \<Longrightarrow> (hi - lo) / theta ^ n < eps \<Longrightarrow>
   \<exists>lo'. gs_loop X y a b g eps lo hi l1 l2 = Some (lo', hi) \<and> lo' \<le> hi \<and> hi - lo' < eps"
proof (induction n arbitrary: lo hi l1 l2)
  case 0
  then have "lo \<le> hi" "hi - lo < eps" by (simp_all add: gs_inv_def)
  then show ?case
    by (subst gs_loop.simps) simp
next
  case (Suc n)
  have le: "lo \<le> hi" using Suc.prems(1) by (simp add: gs_inv_def)
  show ?case
  proof (cases "\<bar>lo - hi\<bar> \<ge> eps")
    case False
    then show ?thesis using le by (subst gs_loop.simps) simp
  next
    case True
    note inv = gs_inv_up [OF Suc.prems(1)]
    have "(hi - lo) / theta / theta ^ n < eps"
      using Suc.prems(2) by (simp add: field_simps)
    then have "(hi - l1) / theta ^ n < eps" by (simp only: inv(2))
    from Suc.IH [OF inv(1) this] obtain lo' where
      r: "gs_loop X y a b g eps l1 hi l2 (l1 + (hi - l1) / theta) = Some (lo', hi)"
        "lo' \<le> hi" "hi - lo' < eps"
      by blast
    have "gs_loop X y a b g eps lo hi l1 l2 = Some (lo', hi)"
      using True flat r(1) by (subst gs_loop.simps) (simp add: Let_def)
    then show ?thesis using r by auto
  qed
qed

lemma find_best_lr_bracket_flat:
  assumes flat: "\<And>l l'. calculate_log_likelihood X y (a + l * fst g) (vec_add b (vec_scale l (snd g)))
                 \<le> calculate_log_likelihood X y (a + l' * fst g) (vec_add b (vec_scale l' (snd g)))"
    and pos: "0 < lr_max"
  shows "\<exists>lo. find_best_lr_bracket X y a b g lr_max = Some (lo, lr_max) \<and>
           lo \<le> lr_max \<and> lr_max - lo < 0.00001 * lr_max"
proof -
  have inv: "gs_inv 0 lr_max (lr_max - (lr_max - 0) / theta) (0 + (lr_max - 0) / theta)"
    using pos by (simp add: gs_inv_def)
  have "0 < 0.00001 * (lr_max - 0)" using pos by simp
  from width_shrinks [OF this] obtain n where
    "(lr_max - 0) / theta ^ n < 0.00001 * (lr_max - 0)" by blast
  from gs_loop_flat [of X y a g b, OF flat inv this] show ?thesis
    by (simp add: find_best_lr_bracket_def Let_def)
qed

lemma grad_example:
  "calculate_gradient (NdArray [2, 1] [0, 0]) [1, 0] 0 [0] = (0, [0])"
  by (simp add: calculate_gradient_def proba_def X_dot_def rows_def row_def nrows_def ncols_def
      dot_def vec_sub_def Xt_dot_def Let_def upt_conv_Cons)

section \<open>Properties of inference\<close>

lemma length_proba: "length (proba X a b) = nrows X"
  by (simp add: proba_def X_dot_def rows_def)

section \<open>Properties of training\<close>

lemma length_Xt_dot: "length (Xt_dot X r) = ncols X"
  by (simp add: Xt_dot_def)

lemma length_update:
  "length (vec_add b (vec_scale lr (snd (calculate_gradient X y a b)))) = min (length b) (ncols X)"
  by (simp add: vec_add_def vec_scale_def calculate_gradient_def Let_def length_Xt_dot)

lemma fit_loop_run:
  assumes pos: "0 < lr_max"
  shows "\<exists>a' b' it' new.
           fit_loop X y eps lr_max max_iters a b f_old it out = Some (a', b', it', out @ new) \<and>
           stop_rule eps max_iters f_old it new it' \<and>
           length b' = min (length b) (ncols X)"
proof (induction "nat (max_iters - it)" arbitrary: a b f_old it out rule: less_induct)
  case less
  let ?g = "calculate_gradient X y a b"
  obtain lr where lr: "find_best_lr X y a b ?g lr_max = Some lr"
    using find_best_lr_returns [OF pos] by blast
  let ?a = "a + lr * fst ?g"
  let ?b = "vec_add b (vec_scale lr (snd ?g))"
  let ?f = "calculate_log_likelihood X y ?a ?b"
  have lb: "length ?b = min (length b) (ncols X)" by (rule length_update)
  show ?case
  proof (cases "?f - f_old < eps")
    case True
    then have "fit_loop X y eps lr_max max_iters a b f_old it out = Some (?a, ?b, it, out @ [(it, ?f)])"
      by (subst fit_loop.simps) (simp add: lr Let_def)
    moreover have "stop_rule eps max_iters f_old it [(it, ?f)] it" using True by simp
    ultimately show ?thesis using lb by blast
  next
    case False
    show ?thesis
    proof (cases "it + 1 \<ge> max_iters")
      case True
      have "fit_loop X y eps lr_max max_iters a b f_old it out = Some (?a, ?b, it + 1, out @ [(it, ?f)])"
        using False True by (subst fit_loop.simps) (simp add: lr Let_def)
      moreover have "stop_rule eps max_iters f_old it [(it, ?f)] (it + 1)"
        using False True by simp
      ultimately show ?thesis using lb by blast
    next
      case more: False
      then have "nat (max_iters - (it + 1)) < nat (max_iters - it)" by simp
      from less [OF this, of ?a ?b ?f "out @ [(it, ?f)]"]
      obtain a' b' it' new where
        r: "fit_loop X y eps lr_max max_iters ?a ?b ?f (it + 1) (out @ [(it, ?f)]) =
             Some (a', b', it', (out @ [(it, ?f)]) @ new)"
          "stop_rule eps max_iters ?f (it + 1) new it'"
          "length b' = min (length ?b) (ncols X)"
        by blast
      have "fit_loop X y eps lr_max max_iters a b f_old it out = Some (a', b', it', out @ (it, ?f) # new)"
        using False more r(1) by (subst fit_loop.simps) (simp add: lr Let_def)
      moreover have "stop_rule eps max_iters f_old it ((it, ?f) # new) it'"
        using False more r(2) by simp
      moreover have "length b' = min (length b) (ncols X)"
        using r(3) lb by simp
      ultimately show ?thesis by blast
    qed
  qed
qed

text \<open>When the line search does not return, neither does the training loop.\<close>

lemma fit_loop_line_search_hangs:
  "find_best_lr X y a b (calculate_gradient X y a b) lr_max = None \<Longrightarrow>
   fit_loop X y eps lr_max max_iters a b f_old it out = None"
  by (subst fit_loop.simps) (simp add: Let_def)

lemma fit_degenerate:
  assumes X: "shape Xa = [n, d]" and y: "shape ya = [n]" "length (elems ya) = n"
    and hp: "0 < eps" "0 < lr_max" "1 \<le> max_iters"
    and deg: "(\<forall>y\<in>set (elems ya). y > 0) \<or> (\<forall>y\<in>set (elems ya). \<not> y > 0)"
  shows "\<exists>a b. fit self ra rb (Array Xa) (Array ya) eps lr_max max_iters =
           Some (Inl ZeroDivisionError, self\<lparr>self_a := Some a, self_b := Some b\<rparr>)"
proof -
  let ?a0 = "ra - 1/2"
  let ?b0 = "map (\<lambda>j. rb j - 1/2) [0..<ncols Xa]"
  let ?f0 = "calculate_log_likelihood Xa (elems ya) ?a0 ?b0"
  have n: "nrows Xa = n" and d: "ncols Xa = d"
    using X by (simp_all add: nrows_def ncols_def)
  obtain a b it out where
    r: "fit_loop Xa (elems ya) eps lr_max max_iters ?a0 ?b0 ?f0 1 [(0, ?f0)] = Some (a, b, it, out)"
      and lb: "length b = min (length ?b0) (ncols Xa)"
    using fit_loop_run [OF hp(2), of Xa "elems ya" eps max_iters ?a0 ?b0 ?f0 1 "[(0, ?f0)]"]
    by blast
  let ?self = "self\<lparr>self_a := Some a, self_b := Some b\<rparr>"
  have t: "transform ?self (Array Xa) = Inr (proba Xa a b)"
    using lb by (simp add: transform_def X)
  have "length (elems ya) = length (proba Xa a b)"
    by (simp add: length_proba n y(2))
  from calc_best_th_raises [OF this deg]
  have c: "calc_best_th (elems ya) (proba Xa a b) = Inl ZeroDivisionError" .
  have "fit self ra rb (Array Xa) (Array ya) eps lr_max max_iters = Some (Inl ZeroDivisionError, ?self)"
    using hp unfolding fit_def by (simp add: X y n r t c Let_def del: fit_loop.simps)
  then show ?thesis by blast
qed

section \<open>Properties of load\<close>

lemma load_loop_blank:
  "\<not> nonblank l \<Longrightarrow> load_loop z lib (l # rest) input_size ind self = load_loop z lib rest input_size ind self"
  by (simp add: nonblank_def)

lemma load_loop_blanks:
  "\<forall>u\<in>set us. \<not> nonblank u \<Longrightarrow>
   load_loop z lib (us @ rest) input_size ind self = load_loop z lib rest input_size ind self"
  by (induction us) (simp_all add: load_loop_blank del: load_loop.simps)

lemma load_loop_header:
  assumes "header_declares lib h d" and "input_size \<le> 0"
    and "z (nat d) = Inr (replicate (nat d) 0)"
  shows "load_loop z lib (h # rest) input_size ind self =
           load_loop z lib rest d ind
             (self\<lparr>self_b := Some (replicate (nat d) 0), self_a := Some 0, self_th := Some 0.5\<rparr>)"
proof -
  from assms(1) obtain w1 w2 w3 where
    parts: "split (strip h) = [w1, w2, w3]"
      and w: "lower w1 = ''input''" "lower w2 = ''size''" "py_int lib w3 = Some d" "0 < d"
    by (auto simp: header_declares_def split: list.splits)
  have "strip h \<noteq> []"
    using parts by (auto simp: split_def)
  then show ?thesis
    using assms(2,3) w by (simp add: parts Let_def)
qed

text \<open>The lines after the header, blank ones included, when too few of them are not blank.\<close>

lemma load_loop_short:
  "0 < d \<Longrightarrow> self_b self \<noteq> None \<Longrightarrow>
   ind + int (length (filter nonblank ls)) < d + 2 \<Longrightarrow>
   \<forall>l\<in>set (filter nonblank ls). py_float lib (strip l) \<noteq> None \<Longrightarrow>
   fst (load_loop z lib ls d ind self) = Inl CorruptFileError"
proof (induction ls arbitrary: ind self)
  case Nil
  then show ?case by simp
next
  case (Cons l ls)
  show ?case
  proof (cases "nonblank l")
    case False
    then show ?thesis
      using Cons.IH [of self ind] Cons.prems by (simp add: load_loop_blank del: load_loop.simps)
  next
    case True
    then obtain v where v: "py_float lib (strip l) = Some v"
      using Cons.prems(4) by auto
    obtain b where b: "self_b self = Some b"
      using Cons.prems(2) by auto
    have ne: "strip l \<noteq> []" using True by (simp add: nonblank_def)
    have len: "ind + 1 + int (length (filter nonblank ls)) < d + 2"
      using Cons.prems(3) True by simp
    have rest: "\<forall>l\<in>set (filter nonblank ls). py_float lib (strip l) \<noteq> None"
      using Cons.prems(4) by simp
    have small: "ind \<le> d" using len by simp
    show ?thesis
    proof (cases "ind < d")
      case lt: True
      have "fst (load_loop z lib ls d (ind + 1) (self\<lparr>self_b := Some (b[nat ind := v])\<rparr>)) = Inl CorruptFileError"
        by (rule Cons.IH [OF Cons.prems(1) _ len rest]) simp
      then show ?thesis
        using lt Cons.prems(1) ne by (simp add: v b Let_def)
    next
      case False
      then have eq: "ind = d" using small by simp
      have "fst (load_loop z lib ls d (ind + 1) (self\<lparr>self_a := Some v\<rparr>)) = Inl CorruptFileError"
        by (rule Cons.IH [OF Cons.prems(1) _ len rest]) (simp add: b)
      then show ?thesis
        using eq Cons.prems(1) ne by (simp add: v Let_def)
    qed
  qed
qed

text \<open>The same when too many of them are not blank and the first ones are numbers.\<close>

lemma load_loop_long:
  "0 < d \<Longrightarrow> self_b self \<noteq> None \<Longrightarrow> 0 \<le> ind \<Longrightarrow> ind \<le> d + 2 \<Longrightarrow>
   d + 2 < ind + int (length (filter nonblank ls)) \<Longrightarrow>
   \<forall>l\<in>set (take (nat (d + 2 - ind)) (filter nonblank ls)). py_float lib (strip l) \<noteq> None \<Longrightarrow>
   fst (load_loop z lib ls d ind self) = Inl CorruptFileError"
proof (induction ls arbitrary: ind self)
  case Nil
  then show ?case by simp
next
  case (Cons l ls)
  show ?case
  proof (cases "nonblank l")
    case False
    then show ?thesis
      using Cons.IH [of self ind] Cons.prems by (simp add: load_loop_blank del: load_loop.simps)
  next
    case True
    have ne: "strip l \<noteq> []" using True by (simp add: nonblank_def)
    show ?thesis
    proof (cases "ind > d + 1")
      case True
      then show ?thesis using Cons.prems(1) ne by (simp add: Let_def)
    next
      case False
      then have pos: "0 < nat (d + 2 - ind)" by simp
      then obtain k where k: "nat (d + 2 - ind) = Suc k" by (cases "nat (d + 2 - ind)") auto
      have k': "nat (d + 2 - (ind + 1)) = k" using k by simp
      obtain v where v: "py_float lib (strip l) = Some v"
        using Cons.prems(6) \<open>nonblank l\<close> by (auto simp: k)
      obtain b where b: "self_b self = Some b"
        using Cons.prems(2) by auto
      have len: "d + 2 < ind + 1 + int (length (filter nonblank ls))"
        using Cons.prems(5) \<open>nonblank l\<close> by simp
      have rest: "\<forall>l\<in>set (take (nat (d + 2 - (ind + 1))) (filter nonblank ls)). py_float lib (strip l) \<noteq> None"
        unfolding k' using Cons.prems(6) \<open>nonblank l\<close> by (simp add: k)
      have bounds: "0 \<le> ind + 1" "ind + 1 \<le> d + 2"
        using Cons.prems(3) False by simp_all
      have IH: "self_b self' \<noteq> None \<Longrightarrow>
                fst (load_loop z lib ls d (ind + 1) self') = Inl CorruptFileError" for self'
        by (rule Cons.IH [OF Cons.prems(1) _ bounds len rest])
      consider "ind < d" | "ind = d" | "ind = d + 1"
        using False by linarith
      then show ?thesis
      proof cases
        case 1
        have "fst (load_loop z lib ls d (ind + 1) (self\<lparr>self_b := Some (b[nat ind := v])\<rparr>)) = Inl CorruptFileError"
          by (rule IH) simp
        then show ?thesis
          using 1 Cons.prems(1) ne by (simp add: v b Let_def)
      next
        case 2
        have "fst (load_loop z lib ls d (ind + 1) (self\<lparr>self_a := Some v\<rparr>)) = Inl CorruptFileError"
          by (rule IH) (simp add: b)
        then show ?thesis
          using 2 Cons.prems(1) ne by (simp add: v Let_def)
      next
        case 3
        have "fst (load_loop z lib ls d (ind + 1) (self\<lparr>self_th := Some v\<rparr>)) = Inl CorruptFileError"
          by (rule IH) (simp add: b)
        then show ?thesis
          using 3 Cons.prems(1) ne by (simp add: v Let_def)
      qed
    qed
  qed
qed

lemma load_np_after_header:
  assumes fl: "fs file_name = Some text"
    and lines: "filter nonblank (readlines text) = h # dat"
    and header: "header_declares lib h d"
    and alloc: "z (nat d) = Inr (replicate (nat d) 0)"
  shows "\<exists>vs self'. dat = filter nonblank vs \<and> self_b self' \<noteq> None \<and>
           load_np z lib self file_name fs = load_loop z lib vs d 0 self'"
proof -
  from lines obtain us vs where
    split: "readlines text = us @ h # vs" and us: "\<forall>u\<in>set us. \<not> nonblank u"
      and vs: "dat = filter nonblank vs"
    by (auto simp: filter_eq_Cons_iff)
  let ?self = "self\<lparr>self_b := Some (replicate (nat d) 0), self_a := Some 0, self_th := Some 0.5\<rparr>"
  have "load_np z lib self file_name fs = load_loop z lib (us @ h # vs) (- 1) 0 self"
    by (simp add: load_np_def fl split)
  also have "\<dots> = load_loop z lib (h # vs) (- 1) 0 self"
    by (rule load_loop_blanks [OF us])
  also have "\<dots> = load_loop z lib vs d 0 ?self"
    by (rule load_loop_header [where d = d]) (use header alloc in simp_all)
  finally have "load_np z lib self file_name fs = load_loop z lib vs d 0 ?self" .
  moreover have "self_b ?self \<noteq> None" by simp
  ultimately show ?thesis using vs by blast
qed

lemma load_after_header:
  assumes "fs file_name = Some text"
    and "filter nonblank (readlines text) = h # dat"
    and "header_declares lib h d"
  shows "\<exists>vs self'. dat = filter nonblank vs \<and> self_b self' \<noteq> None \<and>
           load lib self file_name fs = load_loop (\<lambda>n. Inr (replicate n 0)) lib vs d 0 self'"
  unfolding load_def
  using load_np_after_header [of fs file_name "text" h dat lib d "\<lambda>n. Inr (replicate n 0)" self] assms
  by simp

lemma header_positive: "header_declares lib h d \<Longrightarrow> 0 < d"
  by (auto simp: header_declares_def split: list.splits)

lemmas text_eval = readlines_def strip_def is_space_def split_def lower_def lower_char_def
  nonblank_def header_declares_def example_lib_def example_zeros_def

lemma example_floats:
  "py_float example_lib (strip ''0.0\<newline>'') = Some 0"
  "py_float example_lib (strip ''0.5\<newline>'') = Some (1/2)"
  "py_float example_lib (strip ''1.0\<newline>'') = Some 1"
  by (simp_all add: example_lib_def strip_def is_space_def)

section \<open>Saving and loading again\<close>

lemma lines_from_line:
  "CHR 0x0A \<notin> set s \<Longrightarrow> lines_from cur (s @ CHR 0x0A # rest) = (cur @ s @ [CHR 0x0A]) # lines_from [] rest"
  by (induction s arbitrary: cur) auto

lemma lines_from_lines:
  "\<forall>w\<in>set ws. CHR 0x0A \<notin> set (f w) \<Longrightarrow>
   lines_from [] (concat (map (\<lambda>w. f w @ [CHR 0x0A]) ws) @ rest) =
     map (\<lambda>w. f w @ [CHR 0x0A]) ws @ lines_from [] rest"
  by (induction ws) (simp_all add: lines_from_line)

lemma no_space_no_newline: "list_all (\<lambda>c. \<not> is_space c) s \<Longrightarrow> CHR 0x0A \<notin> set s"
  by (auto simp: list_all_iff is_space_def)

lemma strip_line:
  assumes "s \<noteq> []" and "list_all (\<lambda>c. \<not> is_space c) s"
  shows "strip (p @ s @ [CHR 0x0A]) = dropWhile is_space p @ s"
proof -
  obtain c cs where s: "s = c # cs" using assms(1) by (cases s) auto
  have c: "\<not> is_space c" using assms(2) by (simp add: s)
  obtain bs e where se: "s = bs @ [e]" using assms(1) by (cases s rule: rev_cases) auto
  have e: "\<not> is_space e" using assms(2) by (simp add: se)
  have nl: "is_space (CHR 0x0A)" by (simp add: is_space_def)
  have fr: "dropWhile is_space (p @ s @ [CHR 0x0A]) = dropWhile is_space p @ s @ [CHR 0x0A]"
    using c by (induction p) (simp_all add: s)
  have bk: "dropWhile is_space (rev (dropWhile is_space p @ s @ [CHR 0x0A])) =
              rev s @ rev (dropWhile is_space p)"
    using e nl by (simp add: se)
  show ?thesis
    unfolding strip_def fr bk by simp
qed

lemma split_from_word:
  "list_all (\<lambda>c. \<not> is_space c) s \<Longrightarrow> cur @ s \<noteq> [] \<Longrightarrow> split_from cur s = [cur @ s]"
  by (induction s arbitrary: cur) simp_all

lemma strip_number:
  assumes "s \<noteq> []" and "list_all (\<lambda>c. \<not> is_space c) s"
  shows "strip (s @ [CHR 0x0A]) = s"
  using strip_line [OF assms, of "[]"] by simp

lemma strip_blank: "strip [CHR 0x0A] = []"
  by (simp add: strip_def is_space_def)

lemma header_of_save:
  assumes "int_text_ok lib d" and "0 < d"
  shows "header_declares lib (''Input size '' @ str_int lib d @ [CHR 0x0A]) d"
proof -
  let ?ds = "str_int lib d"
  have ds: "?ds \<noteq> []" "list_all (\<lambda>c. \<not> is_space c) ?ds" "py_int lib ?ds = Some d"
    using assms(1) by (simp_all add: int_text_ok_def)
  have "strip (''Input size '' @ ?ds @ [CHR 0x0A]) = ''Input size '' @ ?ds"
    using strip_line [OF ds(1,2), of "''Input size ''"] by (simp add: is_space_def)
  moreover have "split (''Input size '' @ ?ds) = [''Input'', ''size'', ?ds]"
    using split_from_word [OF ds(2), of "[]"] ds(1) by (simp add: split_def is_space_def)
  moreover have "lower ''Input'' = ''input''" "lower ''size'' = ''size''"
    by (simp_all add: lower_def lower_char_def)
  ultimately show ?thesis
    using ds(3) assms(2) by (simp add: header_declares_def)
qed

lemma load_loop_weights:
  "list_all (float_text_ok lib) ws \<Longrightarrow> self_b self = Some cur \<Longrightarrow>
   i + length ws \<le> length cur \<Longrightarrow> int (length cur) = d \<Longrightarrow>
   load_loop z lib (map (\<lambda>w. str_float lib w @ [CHR 0x0A]) ws @ rest) d (int i) self =
     load_loop z lib rest d (int (i + length ws))
       (self\<lparr>self_b := Some (take i cur @ ws @ drop (i + length ws) cur)\<rparr>)"
proof (induction ws arbitrary: i self cur)
  case Nil
  have "self\<lparr>self_b := Some cur\<rparr> = self"
    using Nil.prems(2) [symmetric] by simp
  then show ?case using Nil.prems(3) by simp
next
  case (Cons w ws)
  let ?s = "str_float lib w"
  have w: "?s \<noteq> []" "list_all (\<lambda>c. \<not> is_space c) ?s" "py_float lib ?s = Some w"
    using Cons.prems(1) by (simp_all add: float_text_ok_def)
  have st: "strip (?s @ [CHR 0x0A]) = ?s" by (rule strip_number [OF w(1,2)])
  have i: "i < length cur" "int i < d" "0 < d"
    using Cons.prems(3,4) by auto
  let ?self = "self\<lparr>self_b := Some (cur[i := w])\<rparr>"
  have step: "load_loop z lib ((?s @ [CHR 0x0A]) # map (\<lambda>w. str_float lib w @ [CHR 0x0A]) ws @ rest) d (int i) self =
              load_loop z lib (map (\<lambda>w. str_float lib w @ [CHR 0x0A]) ws @ rest) d (int i + 1) ?self"
    using i w(1) by (simp add: st w(3) Cons.prems(2) Let_def)
  have IH: "load_loop z lib (map (\<lambda>w. str_float lib w @ [CHR 0x0A]) ws @ rest) d (int (Suc i)) ?self =
            load_loop z lib rest d (int (Suc i + length ws))
              (?self\<lparr>self_b := Some (take (Suc i) (cur[i := w]) @ ws @ drop (Suc i + length ws) (cur[i := w]))\<rparr>)"
    using Cons.prems by (intro Cons.IH) simp_all
  have tk: "take (Suc i) (cur[i := w]) = take i cur @ [w]"
    using i(1) by (simp add: take_Suc_conv_app_nth)
  have dr: "drop (Suc i + length ws) (cur[i := w]) = drop (Suc i + length ws) cur"
    by simp
  show ?case
    using step IH by (simp add: tk dr add.commute)
qed

lemma readlines_file_text:
  assumes "int_text_ok lib (int (length b))"
    and "float_text_ok lib a" and "float_text_ok lib th" and "list_all (float_text_ok lib) b"
  shows "readlines (file_text lib a b th) =
           (''Input size '' @ str_int lib (int (length b)) @ [CHR 0x0A]) # [CHR 0x0A] #
           map (\<lambda>w. str_float lib w @ [CHR 0x0A]) b @
           [[CHR 0x0A], str_float lib a @ [CHR 0x0A], [CHR 0x0A], str_float lib th @ [CHR 0x0A]]"
proof -
  let ?nl = "CHR 0x0A"
  let ?h = "''Input size '' @ str_int lib (int (length b))"
  have h: "?nl \<notin> set ?h"
    using assms(1) no_space_no_newline [of "str_int lib (int (length b))"]
    by (simp add: int_text_ok_def)
  have sa: "?nl \<notin> set (str_float lib a)" and sth: "?nl \<notin> set (str_float lib th)"
    using assms(2,3) by (simp_all add: float_text_ok_def no_space_no_newline)
  have sb: "\<forall>w\<in>set b. ?nl \<notin> set (str_float lib w)"
    using assms(4) by (auto simp: list_all_iff float_text_ok_def no_space_no_newline)
  have e: "?nl \<notin> set ([] :: string)" by simp
  let ?tail3 = "str_float lib th @ ?nl # []"
  let ?tail2 = "[] @ ?nl # ?tail3"
  let ?tail1 = "str_float lib a @ ?nl # ?tail2"
  let ?tail0 = "[] @ ?nl # ?tail1"
  let ?body = "concat (map (\<lambda>w. str_float lib w @ [?nl]) b) @ ?tail0"
  have ft: "file_text lib a b th = ?h @ ?nl # ([] @ ?nl # ?body)"
    by (simp add: file_text_def)
  have l1: "lines_from [] (?h @ ?nl # ([] @ ?nl # ?body)) =
              ([] @ ?h @ [?nl]) # lines_from [] ([] @ ?nl # ?body)"
    by (rule lines_from_line [OF h])
  have l2: "lines_from [] ([] @ ?nl # ?body) = ([] @ [] @ [?nl]) # lines_from [] ?body"
    by (rule lines_from_line [OF e])
  have l3: "lines_from [] ?body = map (\<lambda>w. str_float lib w @ [?nl]) b @ lines_from [] ?tail0"
    by (rule lines_from_lines [OF sb])
  have l4: "lines_from [] ?tail0 = ([] @ [] @ [?nl]) # lines_from [] ?tail1"
    by (rule lines_from_line [OF e])
  have l5: "lines_from [] ?tail1 = ([] @ str_float lib a @ [?nl]) # lines_from [] ?tail2"
    by (rule lines_from_line [OF sa])
  have l6: "lines_from [] ?tail2 = ([] @ [] @ [?nl]) # lines_from [] ?tail3"
    by (rule lines_from_line [OF e])
  have l7: "lines_from [] ?tail3 = ([] @ str_float lib th @ [?nl]) # lines_from [] []"
    by (rule lines_from_line [OF sth])
  show ?thesis
    unfolding readlines_def ft l1 l2 l3 l4 l5 l6 l7 by simp
qed

lemma load_loop_number:
  assumes "float_text_ok lib x" and "0 < d"
  shows "load_loop z lib ((str_float lib x @ [CHR 0x0A]) # rest) d d self =
           load_loop z lib rest d (d + 1) (self\<lparr>self_a := Some x\<rparr>)"
    and "0 \<le> x \<Longrightarrow> x \<le> 1 \<Longrightarrow>
         load_loop z lib ((str_float lib x @ [CHR 0x0A]) # rest) d (d + 1) self =
           load_loop z lib rest d (d + 2) (self\<lparr>self_th := Some x\<rparr>)"
proof -
  let ?s = "str_float lib x"
  have x: "?s \<noteq> []" "list_all (\<lambda>c. \<not> is_space c) ?s" "py_float lib ?s = Some x"
    using assms(1) by (simp_all add: float_text_ok_def)
  have st: "strip (?s @ [CHR 0x0A]) = ?s" by (rule strip_number [OF x(1,2)])
  show "load_loop z lib ((?s @ [CHR 0x0A]) # rest) d d self =
           load_loop z lib rest d (d + 1) (self\<lparr>self_a := Some x\<rparr>)"
    using assms(2) x(1) by (simp add: st x(3) Let_def)
  show "load_loop z lib ((?s @ [CHR 0x0A]) # rest) d (d + 1) self =
           load_loop z lib rest d (d + 2) (self\<lparr>self_th := Some x\<rparr>)"
    if "0 \<le> x" "x \<le> 1"
    using assms(2) x(1) that by (simp add: st x(3) Let_def add.commute)
qed

lemma load_loop_newline:
  "load_loop z lib ([CHR 0x0A] # rest) input_size ind self = load_loop z lib rest input_size ind self"
  by (simp add: strip_blank)

lemma example_lib_ok:
  "int_text_ok example_lib 0" "int_text_ok example_lib 1"
  "float_text_ok example_lib 0" "float_text_ok example_lib (1/2)" "float_text_ok example_lib 1"
  by (simp_all add: int_text_ok_def float_text_ok_def example_lib_def is_space_def)

section \<open>Properties of the line search in floating point\<close>

lemma gs_loop_fl_positive:
  assumes "gs_loop_fl fl obj theta' eps lr_min lr_max lr1 lr2 = Some r"
  shows "0 < eps"
  by (rule gs_loop_fl.raw_induct
        [where P = "\<lambda>fl obj theta' eps lr_min lr_max lr1 lr2 r. 0 < eps", OF _ assms])
     (auto simp: Let_def split: if_splits)

lemma gs_loop_fl_zero: "eps \<le> 0 \<Longrightarrow> gs_loop_fl fl obj theta' eps lr_min lr_max lr1 lr2 = None"
  using gs_loop_fl_positive [of fl obj theta' eps lr_min lr_max lr1 lr2]
  by (cases "gs_loop_fl fl obj theta' eps lr_min lr_max lr1 lr2") auto

section \<open>Properties of threshold calibration in floating point\<close>

lemma th_step_fl_dist:
  assumes len: "length ys = length ps"
    and pos: "\<exists>y\<in>set ys. y > 0" and neg: "\<exists>y\<in>set ys. \<not> y > 0"
  shows "th_step_fl fl ys ps th s =
           Inr (if computed_dist fl ys ps th < snd s then (th, computed_dist fl ys ps th) else s)"
proof -
  have p: "TP ys ps th + FN ys ps th \<noteq> 0"
    using pos by (simp add: positives [OF len] filter_empty_conv)
  have n: "TN ys ps th + FP ys ps th \<noteq> 0"
    using neg negatives [OF len, of th] by (simp add: filter_empty_conv add.commute)
  show ?thesis
    unfolding th_step_fl_def calc_quality_counts [OF len] computed_dist_def
    by (simp only: sum.case quality.select_convs p n if_False Let_def) simp
qed

lemma th_loop_fl_fold:
  assumes len: "length ys = length ps"
    and pos: "\<exists>y\<in>set ys. y > 0" and neg: "\<exists>y\<in>set ys. \<not> y > 0"
  shows "th_loop_fl fl ys ps ths s = Inr (fold (keep_min (computed_dist fl ys ps)) ths s)"
  by (induction ths arbitrary: s) (simp_all add: th_step_fl_dist [OF len pos neg] keep_min_def)

lemma computed_dist_zero:
  assumes ok: "float_ops_ok fl"
    and len: "length ys = length ps"
    and pos: "\<exists>y\<in>set ys. y > 0" and neg: "\<exists>y\<in>set ys. \<not> y > 0"
    and prob: "\<forall>p\<in>set ps. 0 \<le> p"
  shows "computed_dist fl ys ps 0 = 1"
proof -
  have none: "count_pairs P (\<lambda>p. \<not> p \<ge> 0) ys ps = 0" for P
    using prob unfolding count_pairs_def
    by (auto simp: filter_empty_conv dest: set_zip_rightD)
  have fn0: "FN ys ps 0 = 0" and tn0: "TN ys ps 0 = 0"
    by (simp_all add: FN_def TN_def none)
  have p: "0 < TP ys ps 0"
    using pos positives [OF len, of 0] by (simp add: fn0 filter_empty_conv)
  have n: "0 < FP ys ps 0"
    using neg negatives [OF len, of 0] by (simp add: tn0 filter_empty_conv)
  have q: "fdiv fl (real k) (real k) = 1" if "0 < k" for k
    using ok that unfolding float_ops_ok_def by blast
  have one: "fsqrt fl (fadd fl (fmul fl (fsub fl 0 1) (fsub fl 0 1))
                              (fmul fl (fsub fl 1 1) (fsub fl 1 1))) = 1"
    using ok unfolding float_ops_ok_def by blast
  show ?thesis
    unfolding computed_dist_def fn0 tn0 Let_def add_0_right add_0_left q [OF p] q [OF n]
    by (rule one)
qed

lemma upt_101: "[0..<101] = 0 # [1..<101]"
  by (subst upt_conv_Cons) simp_all

lemma candidates_fl_Cons:
  assumes "float_ops_ok fl"
  shows "candidates_fl fl = 0 # map (\<lambda>a. fdiv fl (real a) 100) [1..<101]"
proof -
  have "fdiv fl 0 100 = 0"
    using assms unfolding float_ops_ok_def by blast
  then show ?thesis
    unfolding candidates_fl_def upt_101 by simp
qed

lemma example_candidate:
  "fdiv example_fl (real a) 100 =
     (if a = 1 then 5764607523034235 / 2 ^ 59
      else if a = 26 then 1170935903116329 / 2 ^ 52 else real a / 100)"
  by (simp add: example_fl_def)

lemma example_candidates_sorted: "sorted_wrt (<) (candidates_fl example_fl)"
proof -
  let ?f = "\<lambda>a. if a = 1 then 5764607523034235 / 2 ^ 59
                else if a = 26 then 1170935903116329 / 2 ^ 52 else real a / 100"
  have near: "(real a - 1/2) / 100 < ?f a \<and> ?f a < (real a + 1/2) / 100" for a :: nat
    by simp
  have mono: "?f x < ?f y" if "x < y" for x y :: nat
  proof -
    have "real x + 1 \<le> real y" using that by simp
    then have "(real x + 1/2) / 100 \<le> (real y - 1/2) / 100" by simp
    moreover have "?f x < (real x + 1/2) / 100" using near [of x] by blast
    moreover have "(real y - 1/2) / 100 < ?f y" using near [of y] by blast
    ultimately show ?thesis by linarith
  qed
  have "sorted_wrt (\<lambda>x y. ?f x < ?f y) [0..<101]"
    by (rule sorted_wrt_mono_rel [of _ "(<)"]) (simp_all add: mono)
  then show ?thesis
    unfolding candidates_fl_def example_candidate sorted_wrt_map .
qed

lemma example_fl_ok: "float_ops_ok example_fl"
  unfolding float_ops_ok_def
proof (intro conjI allI impI)
  show "fdiv example_fl (real n) (real n) = 1" if "0 < n" for n :: nat
    using that by (simp add: example_fl_def)
  show "fsqrt example_fl (fadd example_fl (fmul example_fl (fsub example_fl 0 1) (fsub example_fl 0 1))
          (fmul example_fl (fsub example_fl 1 1) (fsub example_fl 1 1))) = 1"
    by (simp add: example_fl_def)
  show "fdiv example_fl 0 100 = 0"
    by (simp add: example_fl_def)
  show "sorted_wrt (<) (candidates_fl example_fl)"
    by (rule example_candidates_sorted)
qed

lemma upt_unfold: "[0..<101] = [0,1,2,3,4,5,6,7,8,9,10,11,12,13,14,15,16,17,18,19,20,21,22,23,24,25,26,27,28,29,30,
  31,32,33,34,35,36,37,38,39,40,41,42,43,44,45,46,47,48,49,50,51,52,53,54,55,56,57,58,59,60,
  61,62,63,64,65,66,67,68,69,70,71,72,73,74,75,76,77,78,79,80,81,82,83,84,85,86,87,88,89,90,
  91,92,93,94,95,96,97,98,99,100]"
  by (simp add: upt_conv_Cons)

lemma cx_run:
  "calc_best_th_fl example_fl [0, 0, 0, 0, 0, 1, 1, 1, 1, 1] [1/4, 0, 0, 0, 0, 1, 1, 1, 1, 1/4]
     = Inr (1170935903116329 / 2 ^ 52)"
  unfolding calc_best_th_fl_def candidates_fl_def upt_unfold
  by (simp add: th_step_fl_def calc_quality_def ge_astype_float_def example_fl_def Let_def)

lemma cx_tie:
  "roc_dist [0, 0, 0, 0, 0, 1, 1, 1, 1, 1] [1/4, 0, 0, 0, 0, 1, 1, 1, 1, 1/4] (5764607523034235 / 2 ^ 59) =
   roc_dist [0, 0, 0, 0, 0, 1, 1, 1, 1, 1] [1/4, 0, 0, 0, 0, 1, 1, 1, 1, 1/4] (1170935903116329 / 2 ^ 52)"
  by (simp add: roc_dist_def TPR_def FPR_def TP_def FN_def FP_def TN_def count_pairs_def)

lemma cx_cand:
  "5764607523034235 / 2 ^ 59 \<in> set (candidates_fl example_fl)"
proof -
  have c: "fdiv example_fl (real 1) 100 \<in> set (candidates_fl example_fl)"
    unfolding candidates_fl_def by (rule imageI [of 1 "set [0..<101]", folded set_map]) simp
  have e: "fdiv example_fl (real 1) 100 = 5764607523034235 / 2 ^ 59"
    by (simp add: example_fl_def)
  show ?thesis using c unfolding e .
qed

text \<open>Without rounding, the calibration in floating point is the one \<open>fit\<close> uses.\<close>

lemma th_step_fl_exact: "th_step_fl exact_ops ys ps th s = th_step ys ps th s"
  by (simp add: th_step_fl_def th_step_def exact_ops_def Let_def split: sum.splits)

lemma th_loop_fl_exact: "th_loop_fl exact_ops ys ps ths s = th_loop ys ps ths s"
  by (induction ths arbitrary: s) (simp_all add: th_step_fl_exact split: sum.splits)

lemma candidates_fl_exact: "candidates_fl exact_ops = candidates"
  by (simp add: candidates_fl_def candidates_def exact_ops_def)

lemma calc_best_th_fl_exact: "calc_best_th_fl exact_ops ys ps = calc_best_th ys ps"
  by (simp add: calc_best_th_fl_def calc_best_th_def th_loop_fl_exact candidates_fl_exact)

section \<open>The claims\<close>

text \<open>
  Claim C1: \<open>__find_best_lr\<close> is expected to return the midpoint of the final
  bracket. The code returns \<open>(lr_max - lr_min) / 2\<close>, half the width of the final
  bracket. Failing input: \<open>X = [[0], [0]]\<close>, \<open>y = [1, 0]\<close>, bias \<open>0\<close>, weights
  \<open>[0]\<close>, \<open>lr_max = 1\<close>, with the gradient \<open>(0, [0])\<close> of that point. The loop ends
  with a bracket whose midpoint is above \<open>0.999995\<close>, and the value returned is below
  \<open>0.000005\<close>.
\<close>

theorem find_best_lr_half_width:
  "calculate_gradient (NdArray [2, 1] [0, 0]) [1, 0] 0 [0] = (0, [0]) \<and>
   (\<exists>lr_min lr_max.
      find_best_lr_bracket (NdArray [2, 1] [0, 0]) [1, 0] 0 [0] (0, [0]) 1 = Some (lr_min, lr_max) \<and>
      find_best_lr (NdArray [2, 1] [0, 0]) [1, 0] 0 [0] (0, [0]) 1 = Some ((lr_max - lr_min) / 2) \<and>
      (lr_max - lr_min) / 2 < 1 / 200000 \<and>
      1 - 1 / 200000 < (lr_min + lr_max) / 2)"
proof -
  obtain lo where r:
      "find_best_lr_bracket (NdArray [2, 1] [0, 0]) [1, 0] 0 [0] (0, [0]) 1 = Some (lo, 1)"
      "lo \<le> 1" "1 - lo < 0.00001 * 1"
    using find_best_lr_bracket_flat [of "NdArray [2, 1] [0, 0]" "[1, 0]" 0 "(0, [0])" "[0]" 1]
    by (auto simp: vec_add_def vec_scale_def)
  have "find_best_lr (NdArray [2, 1] [0, 0]) [1, 0] 0 [0] (0, [0]) 1 = Some ((1 - lo) / 2)"
    unfolding find_best_lr_def r(1) by simp
  moreover have "(1 - lo) / 2 < 1 / 200000" "1 - 1 / 200000 < (lo + 1) / 2"
    using r(3) by simp_all
  ultimately show ?thesis
    using r(1) grad_example by blast
qed

text \<open>
  Claim C2, as the code has it: for labels containing both classes and predicted
  probabilities (non-negative numbers), one per label, \<open>__calc_best_th\<close> returns a
  candidate of \<open>{0.00, 0.01, \<dots>, 1.00}\<close> whose distance \<open>sqrt (FPR\<^sup>2 + (1 - TPR)\<^sup>2)\<close>, as the
  floating-point arithmetic computes it, is least among all candidates, and every smaller
  candidate has a strictly larger computed distance (ties between computed distances go
  to the first candidate in ascending order).
\<close>

theorem calc_best_th_fl_minimises:
  assumes ok: "float_ops_ok fl"
    and len: "length ys = length ps"
    and pos: "\<exists>y\<in>set ys. y > 0" and neg: "\<exists>y\<in>set ys. \<not> y > 0"
    and prob: "\<forall>p\<in>set ps. 0 \<le> p"
  shows "\<exists>t. calc_best_th_fl fl ys ps = Inr t \<and> t \<in> set (candidates_fl fl) \<and>
           (\<forall>c\<in>set (candidates_fl fl). computed_dist fl ys ps t \<le> computed_dist fl ys ps c) \<and>
           (\<forall>c\<in>set (candidates_fl fl). c < t \<longrightarrow>
              computed_dist fl ys ps t < computed_dist fl ys ps c)"
proof -
  let ?d = "computed_dist fl ys ps"
  let ?rest = "map (\<lambda>a. fdiv fl (real a) 100) [1..<101]"
  let ?s = "fold (keep_min ?d) ?rest (0, 1)"
  have cs: "candidates_fl fl = 0 # ?rest"
    by (rule candidates_fl_Cons [OF ok])
  have d0: "?d 0 = 1"
    by (rule computed_dist_zero [OF ok len pos neg prob])
  have first: "keep_min ?d 0 (0, 1) = (0, 1)"
    by (simp add: keep_min_def d0)
  have run: "th_loop_fl fl ys ps (candidates_fl fl) (0, 1) = Inr ?s"
    unfolding th_loop_fl_fold [OF len pos neg] cs by (simp add: first)
  have init: "first_min ?d [0] (0, 1)"
    by (simp add: first_min_def d0)
  have "sorted_wrt (<) (candidates_fl fl)"
    using ok unfolding float_ops_ok_def by blast
  then have srt: "sorted_wrt (<) ([0] @ ?rest)"
    unfolding cs by simp
  have fin: "first_min ?d (candidates_fl fl) ?s"
    using fold_keep_min [OF srt init] by (simp add: cs)
  have res: "calc_best_th_fl fl ys ps = Inr (fst ?s)"
    by (simp add: calc_best_th_fl_def run)
  show ?thesis
    using fin unfolding res first_min_def by (intro exI [of _ "fst ?s"]) force
qed

text \<open>Instance of the theorem for claim C2 on two samples, one of each class.\<close>

theorem calc_best_th_fl_minimises_witness:
  "float_ops_ok example_fl \<and>
   (\<exists>t. calc_best_th_fl example_fl [0, 1] [1/4, 3/4] = Inr t \<and> t \<in> set (candidates_fl example_fl))"
  using calc_best_th_fl_minimises [OF example_fl_ok, of "[0, 1]" "[1/4, 3/4]"] example_fl_ok
  by auto

text \<open>
  Claim C2 as stated, with the exact distance, fails. Take five negative and five
  positive labels, with probability \<open>0.25\<close> for one of each class, \<open>0\<close> for the other
  negatives and \<open>1\<close> for the other positives. Every candidate from \<open>0.01\<close> on has the exact
  distance \<open>1/5\<close>; the code computes \<open>0.2\<close> for the candidates up to \<open>0.25\<close> and
  \<open>0.19999999999999996\<close> from \<open>0.26\<close> on, and returns \<open>0.26\<close>, although the smaller candidate
  \<open>0.01\<close> has the same exact distance.
\<close>

theorem calc_best_th_tie_counterexample:
  "calc_best_th_fl example_fl [0, 0, 0, 0, 0, 1, 1, 1, 1, 1] [1/4, 0, 0, 0, 0, 1, 1, 1, 1, 1/4]
     = Inr (1170935903116329 / 2 ^ 52) \<and>
   5764607523034235 / 2 ^ 59 \<in> set (candidates_fl example_fl) \<and>
   (5764607523034235 / 2 ^ 59 :: real) < 1170935903116329 / 2 ^ 52 \<and>
   roc_dist [0, 0, 0, 0, 0, 1, 1, 1, 1, 1] [1/4, 0, 0, 0, 0, 1, 1, 1, 1, 1/4] (5764607523034235 / 2 ^ 59) =
   roc_dist [0, 0, 0, 0, 0, 1, 1, 1, 1, 1] [1/4, 0, 0, 0, 0, 1, 1, 1, 1, 1/4] (1170935903116329 / 2 ^ 52)"
proof -
  have "(5764607523034235 / 2 ^ 59 :: real) < 1170935903116329 / 2 ^ 52" by simp
  then show ?thesis
    using cx_run cx_cand cx_tie by blast
qed

text \<open>
  Claim C3: after every public operation, bias, weights and threshold are expected to be
  all undefined or all defined. \<open>fit\<close> breaks this: it assigns bias and weights before
  the loop, and when the labels are all of one class the \<open>ZeroDivisionError\<close> of the
  threshold calibration escapes before the threshold is assigned. On a new object that
  leaves bias and weights defined and the threshold undefined.
\<close>

theorem fit_partial_state:
  assumes "shape Xa = [n, d]" and "shape ya = [n]" and "length (elems ya) = n"
    and "0 < eps" and "0 < lr_max" and "1 \<le> max_iters"
    and "(\<forall>y\<in>set (elems ya). y > 0) \<or> (\<forall>y\<in>set (elems ya). \<not> y > 0)"
  shows "\<exists>a b. fit init ra rb (Array Xa) (Array ya) eps lr_max max_iters =
           Some (Inl ZeroDivisionError, \<lparr>self_a = Some a, self_b = Some b, self_th = None\<rparr>)"
  using fit_degenerate [OF assms, of init ra rb] by (simp add: init_def)

text \<open>The failing input of claim C3: a new object, \<open>X = [[0], [1]]\<close>, \<open>y = [1, 1]\<close>.\<close>

theorem fit_partial_state_witness:
  "\<exists>a b. fit init (1/2) (\<lambda>j. 1/2) (Array (NdArray [2, 1] [0, 1])) (Array (NdArray [2] [1, 1]))
            (1/1000) 1 1000 =
          Some (Inl ZeroDivisionError, \<lparr>self_a = Some a, self_b = Some b, self_th = None\<rparr>)"
  using fit_partial_state [of "NdArray [2, 1] [0, 1]" 2 1 "NdArray [2] [1, 1]" "1/1000" 1 1000 "1/2" "\<lambda>j. 1/2"]
  by simp

text \<open>
  Claim C4: with a label vector that is all ones or all zeros, threshold calibration is
  expected to complete and return a threshold. The code does not: one of the two
  denominators is zero for the first candidate already, and \<open>ZeroDivisionError\<close>
  escapes from \<open>__calc_best_th\<close>.
\<close>

theorem calc_best_th_degenerate:
  assumes "length ys = length ps"
    and "(\<forall>y\<in>set ys. y > 0) \<or> (\<forall>y\<in>set ys. \<not> y > 0)"
  shows "calc_best_th ys ps = Inl ZeroDivisionError"
  using assms by (rule calc_best_th_raises)

text \<open>The failing inputs of claim C4: labels \<open>[1, 1]\<close> and labels \<open>[0, 0]\<close>.\<close>

theorem calc_best_th_degenerate_witness:
  "calc_best_th [1, 1] [3/5, 7/10] = Inl ZeroDivisionError \<and>
   calc_best_th [0, 0] [3/5, 7/10] = Inl ZeroDivisionError"
  using calc_best_th_degenerate [of "[1, 1]" "[3/5, 7/10]"]
    calc_best_th_degenerate [of "[0, 0]" "[3/5, 7/10]"]
  by simp

text \<open>
  Claim C5, as the code has it: for a model with bias, at least one weight and a threshold
  in \<open>[0, 1]\<close>, \<open>save\<close> to a file followed by \<open>load\<close> of that file (into any object)
  succeeds and yields the same bias, weights and threshold, provided the texts that
  Python writes for the numbers read back as those numbers.
\<close>

theorem save_load_roundtrip:
  assumes "self_a self = Some a" and "self_b self = Some b" and "self_th self = Some th"
    and "0 \<le> th" and "th \<le> 1" and "b \<noteq> []"
    and "int_text_ok lib (int (length b))"
    and "float_text_ok lib a" and "float_text_ok lib th" and "list_all (float_text_ok lib) b"
  shows "\<exists>fs'. save lib self file_name fs = (Inr (), fs') \<and>
           (\<exists>other'. load lib other file_name fs' = (Inr (), other') \<and>
              self_a other' = Some a \<and> self_b other' = Some b \<and> self_th other' = Some th)"
proof -
  let ?nl = "CHR 0x0A"
  let ?d = "int (length b)"
  let ?fs = "fs(file_name \<mapsto> file_text lib a b th)"
  let ?ws = "map (\<lambda>w. str_float lib w @ [?nl]) b"
  let ?rest = "[[?nl], str_float lib a @ [?nl], [?nl], str_float lib th @ [?nl]]"
  let ?o1 = "other\<lparr>self_b := Some (replicate (nat ?d) 0), self_a := Some 0, self_th := Some 0.5\<rparr>"
  let ?o2 = "?o1\<lparr>self_b := Some (take 0 (replicate (nat ?d) 0) @ b @ drop (0 + length b) (replicate (nat ?d) 0))\<rparr>"
  let ?o3 = "?o2\<lparr>self_a := Some a\<rparr>"
  let ?o4 = "?o3\<lparr>self_th := Some th\<rparr>"
  have d: "0 < ?d" using assms(6) by simp
  have sv: "save lib self file_name fs = (Inr (), ?fs)"
    by (simp add: save_def assms(1-3))
  let ?z = "\<lambda>n. Inr (replicate n 0) :: error + real list"
  have "load lib other file_name ?fs =
          load_loop ?z lib ((''Input size '' @ str_int lib ?d @ [?nl]) # [?nl] # ?ws @ ?rest) (- 1) 0 other"
    by (simp add: load_def load_np_def readlines_file_text [OF assms(7-10)] del: load_loop.simps)
  also have "\<dots> = load_loop ?z lib ([?nl] # ?ws @ ?rest) ?d 0 ?o1"
    by (rule load_loop_header [OF header_of_save [OF assms(7) d]]) simp_all
  also have "\<dots> = load_loop ?z lib (?ws @ ?rest) ?d (int 0) ?o1"
    by (simp only: load_loop_newline of_nat_0)
  also have "\<dots> = load_loop ?z lib ?rest ?d (int (0 + length b)) ?o2"
    by (rule load_loop_weights [OF assms(10)]) simp_all
  also have "\<dots> = load_loop ?z lib [str_float lib a @ [?nl], [?nl], str_float lib th @ [?nl]] ?d ?d ?o2"
    by (simp only: load_loop_newline add_0)
  also have "\<dots> = load_loop ?z lib [[?nl], str_float lib th @ [?nl]] ?d (?d + 1) ?o3"
    by (rule load_loop_number(1) [OF assms(8) d])
  also have "\<dots> = load_loop ?z lib [str_float lib th @ [?nl]] ?d (?d + 1) ?o3"
    by (simp only: load_loop_newline)
  also have "\<dots> = load_loop ?z lib [] ?d (?d + 2) ?o4"
    by (rule load_loop_number(2) [OF assms(9) d assms(4,5)])
  also have "\<dots> = (Inr (), ?o4)"
    by simp
  finally have ld: "load lib other file_name ?fs = (Inr (), ?o4)" .
  have "self_a ?o4 = Some a" "self_b ?o4 = Some b" "self_th ?o4 = Some th"
    by simp_all
  then show ?thesis
    using sv ld by blast
qed

text \<open>Instance of the theorem for claim C5: bias 0, one weight 1, threshold 1/2.\<close>

theorem save_load_roundtrip_witness:
  "\<exists>fs'. save example_lib \<lparr>self_a = Some 0, self_b = Some [1], self_th = Some (1/2)\<rparr> ''model.txt'' Map.empty
            = (Inr (), fs') \<and>
         (\<exists>other'. load example_lib init ''model.txt'' fs' = (Inr (), other') \<and>
            self_a other' = Some 0 \<and> self_b other' = Some [1] \<and> self_th other' = Some (1/2))"
proof -
  let ?m = "\<lparr>self_a = Some 0, self_b = Some [1::real], self_th = Some (1/2)\<rparr>"
  have 1: "self_a ?m = Some 0" "self_b ?m = Some [1]" "self_th ?m = Some (1/2)" by simp_all
  have 2: "(0::real) \<le> 1/2" "(1/2::real) \<le> 1" "[1::real] \<noteq> []" by simp_all
  have 3: "int_text_ok example_lib (int (length [1::real]))"
    using example_lib_ok(2) by simp
  have 4: "list_all (float_text_ok example_lib) [1]"
    using example_lib_ok(5) by simp
  show ?thesis
    by (rule save_load_roundtrip [OF 1 2 3 example_lib_ok(3,4) 4])
qed

text \<open>
  Claim C5 as stated fails for a model with no weights (which \<open>fit\<close> produces for an
  \<open>X\<close> with no columns): \<open>save\<close> writes \<open>Input size 0\<close>, and \<open>load\<close> rejects a size that is
  not positive.
\<close>

theorem save_load_roundtrip_counterexample:
  "int_text_ok example_lib (int (length ([] :: real list))) \<and>
   float_text_ok example_lib 0 \<and> float_text_ok example_lib (1/2) \<and>
   save example_lib \<lparr>self_a = Some 0, self_b = Some [], self_th = Some (1/2)\<rparr> ''model.txt'' Map.empty =
     (Inr (), [''model.txt'' \<mapsto> ''Input size 0\<newline>\<newline>\<newline>0.0\<newline>\<newline>0.5\<newline>'']) \<and>
   load example_lib init ''model.txt'' [''model.txt'' \<mapsto> ''Input size 0\<newline>\<newline>\<newline>0.0\<newline>\<newline>0.5\<newline>''] =
     (Inl CorruptFileError, init)"
proof -
  have "save example_lib \<lparr>self_a = Some 0, self_b = Some [], self_th = Some (1/2)\<rparr> ''model.txt'' Map.empty =
     (Inr (), [''model.txt'' \<mapsto> ''Input size 0\<newline>\<newline>\<newline>0.0\<newline>\<newline>0.5\<newline>''])"
    by (simp add: save_def file_text_def example_lib_def)
  moreover have "load example_lib init ''model.txt'' [''model.txt'' \<mapsto> ''Input size 0\<newline>\<newline>\<newline>0.0\<newline>\<newline>0.5\<newline>''] =
     (Inl CorruptFileError, init)"
    by (simp add: text_eval load_def load_np_def)
  ultimately show ?thesis
    using example_lib_ok by simp
qed

text \<open>
  Claim C7: for a model with a threshold, \<open>predict\<close> raises exactly the errors that
  \<open>transform\<close> raises on the same input, and otherwise returns, for every row, 1 when
  the probability is at least the threshold and 0 when it is not.
\<close>

theorem predict_threshold:
  assumes "self_th self = Some th"
  shows "(\<forall>e. predict self X = Inl e \<longleftrightarrow> transform self X = Inl e) \<and>
         (\<forall>ps. transform self X = Inr ps \<longrightarrow>
            (\<exists>ls. predict self X = Inr ls \<and> length ls = length ps \<and>
               (\<forall>i<length ps. (ls ! i = 1 \<longleftrightarrow> ps ! i \<ge> th) \<and>
                               (ls ! i = 0 \<longleftrightarrow> \<not> ps ! i \<ge> th))))"
  using assms by (auto simp: predict_def ge_astype_float_def split: sum.splits)

text \<open>Instance of the theorem for claim C7: probability 1/2 against threshold 1/2.\<close>

theorem predict_threshold_witness:
  "predict \<lparr>self_a = Some 0, self_b = Some [1], self_th = Some (1/2)\<rparr> (Array (NdArray [1, 1] [0])) \<noteq> Inl NotFittedError \<and>
   (\<exists>ls. predict \<lparr>self_a = Some 0, self_b = Some [1], self_th = Some (1/2)\<rparr> (Array (NdArray [1, 1] [0])) = Inr ls \<and>
      ls ! 0 = 1)"
proof -
  let ?m = "\<lparr>self_a = Some 0, self_b = Some [1::real], self_th = Some (1/2)\<rparr>"
  let ?X = "Array (NdArray [1, 1] [0])"
  have t: "transform ?m ?X = Inr [1/2]"
    by (simp add: transform_def ncols_def proba_def X_dot_def rows_def row_def nrows_def dot_def)
  have th: "self_th ?m = Some (1/2)" by simp
  from predict_threshold [OF th, of ?X] t show ?thesis
    by auto
qed

text \<open>
  Claim C8: the training loop of \<open>fit\<close> is expected to end for every \<open>lr_max > 0\<close>. It
  does not when the tolerance of the line search, the float product
  \<open>0.00001 * (lr_max - lr_min)\<close>, is zero: the \<open>while\<close> loop of \<open>__find_best_lr\<close> then never
  ends, and \<open>fit\<close>, which calls it in every iteration, never returns.
\<close>

theorem find_best_lr_hangs:
  assumes "fmul fl 0.00001 (fsub fl lr_max 0) = 0"
  shows "find_best_lr_fl fl obj lr_max = None"
  using assms by (simp add: find_best_lr_fl_def Let_def gs_loop_fl_zero)

text \<open>
  The failing input of claim C8: \<open>lr_max = 1e-320\<close>, a positive float that \<open>fit\<close> accepts
  and for which the product underflows to \<open>0.0\<close>.
\<close>

theorem find_best_lr_hangs_witness:
  "fmul example_fl 0.00001 (fsub example_fl (253 / 2 ^ 1071) 0) = 0 \<and>
   find_best_lr_fl example_fl (\<lambda>lr. 0) (253 / 2 ^ 1071) = None"
  using find_best_lr_hangs [of example_fl "253 / 2 ^ 1071" "\<lambda>lr. 0"]
  by (simp add: example_fl_def)

text \<open>
  Claim C9, as the code has it: when the first non-blank line is a header declaring a
  positive \<open>d\<close> for which \<open>numpy.zeros\<close> makes the array of weights, fewer than
  \<open>d + 2\<close> non-blank lines follow it, and each of them reads as a number, \<open>load\<close> raises
  the error of a corrupt file (from the check after the loop).
\<close>

theorem load_too_few_lines:
  assumes "fs file_name = Some text"
    and "filter nonblank (readlines text) = h # dat"
    and "header_declares lib h d"
    and "np_zeros (nat d) = Inr (replicate (nat d) 0)"
    and "int (length dat) < d + 2"
    and "\<forall>l\<in>set dat. py_float lib (strip l) \<noteq> None"
  shows "fst (load_np np_zeros lib self file_name fs) = Inl CorruptFileError"
proof -
  from load_np_after_header [of fs file_name "text" h dat lib d np_zeros self] assms(1-4)
  obtain vs self' where
    r: "dat = filter nonblank vs" "self_b self' \<noteq> None"
      "load_np np_zeros lib self file_name fs = load_loop np_zeros lib vs d 0 self'"
    by blast
  have "fst (load_loop np_zeros lib vs d 0 self') = Inl CorruptFileError"
    using assms(5,6) by (intro load_loop_short header_positive [OF assms(3)] r(2)) (simp_all add: r(1))
  then show ?thesis by (simp add: r(3))
qed

text \<open>Instance of the theorem for claim C9: \<open>Input size 3\<close> followed by two numbers.\<close>

theorem load_too_few_lines_witness:
  "fst (load_np example_zeros example_lib init ''model.txt''
         [''model.txt'' \<mapsto> ''Input size 3\<newline>\<newline>0.5\<newline>0.0\<newline>'']) = Inl CorruptFileError"
proof -
  let ?text = "''Input size 3\<newline>\<newline>0.5\<newline>0.0\<newline>''"
  let ?fs = "[''model.txt'' \<mapsto> ?text]"
  let ?dat = "[''0.5\<newline>'', ''0.0\<newline>'']"
  have 1: "?fs ''model.txt'' = Some ?text" by simp
  have 2: "filter nonblank (readlines ?text) = ''Input size 3\<newline>'' # ?dat"
    by (simp add: text_eval)
  have 3: "header_declares example_lib ''Input size 3\<newline>'' 3"
    by (simp add: text_eval)
  have 4: "example_zeros (nat 3) = Inr (replicate (nat 3) 0)"
    by (simp add: example_zeros_def)
  have 5: "int (length ?dat) < 3 + 2" by simp
  have 6: "\<forall>l\<in>set ?dat. py_float example_lib (strip l) \<noteq> None"
    by (simp add: example_floats del: not_None_eq)
  show ?thesis
    by (rule load_too_few_lines [of ?fs "''model.txt''" ?text "''Input size 3\<newline>''" ?dat example_lib 3
          example_zeros init])
      (rule 1 2 3 4 5 6)+
qed

text \<open>
  Claim C9 as stated fails in two ways, neither caught by \<open>load\<close>. When a line is not a
  number, \<open>float\<close> raises \<open>ValueError\<close> at that line. When the declared size is too large
  for an array, \<open>numpy.zeros\<close> raises at the header.
\<close>

theorem load_too_few_lines_counterexample:
  "filter nonblank (readlines ''Input size 3\<newline>abc\<newline>'') = [''Input size 3\<newline>'', ''abc\<newline>''] \<and>
   header_declares example_lib ''Input size 3\<newline>'' 3 \<and>
   int (length [''abc\<newline>'']) < 3 + 2 \<and>
   fst (load_np example_zeros example_lib init ''model.txt''
         [''model.txt'' \<mapsto> ''Input size 3\<newline>abc\<newline>'']) = Inl ValueError \<and>
   filter nonblank (readlines ''Input size 99999999999999999999\<newline>0.5\<newline>'') =
     [''Input size 99999999999999999999\<newline>'', ''0.5\<newline>''] \<and>
   header_declares example_lib ''Input size 99999999999999999999\<newline>'' 99999999999999999999 \<and>
   int (length [''0.5\<newline>'']) < 99999999999999999999 + 2 \<and>
   py_float example_lib (strip ''0.5\<newline>'') = Some (1/2) \<and>
   load_np example_zeros example_lib init ''model.txt''
     [''model.txt'' \<mapsto> ''Input size 99999999999999999999\<newline>0.5\<newline>''] = (Inl ValueError, init) \<and>
   Inl ValueError \<noteq> (Inl CorruptFileError :: error + unit)"
  by (simp add: text_eval load_np_def CorruptFileError_def)

text \<open>
  Claim C10, as the code has it: when the first non-blank line is a header declaring a
  positive \<open>d\<close>, more than \<open>d + 2\<close> non-blank lines follow it, and the first \<open>d + 2\<close> of
  them read as numbers, \<open>load\<close> raises the error of a corrupt file.
\<close>

theorem load_too_many_lines:
  assumes "fs file_name = Some text"
    and "filter nonblank (readlines text) = h # dat"
    and "header_declares lib h d"
    and "d + 2 < int (length dat)"
    and "\<forall>l\<in>set (take (nat (d + 2)) dat). py_float lib (strip l) \<noteq> None"
  shows "fst (load lib self file_name fs) = Inl CorruptFileError"
proof -
  from load_after_header [of fs file_name "text" h dat lib d self] assms(1-3)
  obtain vs self' where
    r: "dat = filter nonblank vs" "self_b self' \<noteq> None"
      "load lib self file_name fs = load_loop (\<lambda>n. Inr (replicate n 0)) lib vs d 0 self'"
    by blast
  have d: "0 < d" by (rule header_positive [OF assms(3)])
  have "fst (load_loop (\<lambda>n. Inr (replicate n 0)) lib vs d 0 self') = Inl CorruptFileError"
    using assms(4,5) d by (intro load_loop_long d r(2)) (simp_all add: r(1))
  then show ?thesis by (simp add: r(3))
qed

text \<open>Instance of the theorem for claim C10: \<open>Input size 1\<close> followed by four numbers.\<close>

theorem load_too_many_lines_witness:
  "fst (load example_lib init ''model.txt''
         [''model.txt'' \<mapsto> ''Input size 1\<newline>\<newline>0.5\<newline>\<newline>0.0\<newline>\<newline>0.5\<newline>1.0\<newline>'']) = Inl CorruptFileError"
proof -
  let ?text = "''Input size 1\<newline>\<newline>0.5\<newline>\<newline>0.0\<newline>\<newline>0.5\<newline>1.0\<newline>''"
  let ?fs = "[''model.txt'' \<mapsto> ?text]"
  let ?dat = "[''0.5\<newline>'', ''0.0\<newline>'', ''0.5\<newline>'', ''1.0\<newline>'']"
  have 1: "?fs ''model.txt'' = Some ?text" by simp
  have 2: "filter nonblank (readlines ?text) = ''Input size 1\<newline>'' # ?dat"
    by (simp add: text_eval)
  have 3: "header_declares example_lib ''Input size 1\<newline>'' 1"
    by (simp add: text_eval)
  have 4: "1 + 2 < int (length ?dat)" by simp
  have 5: "\<forall>l\<in>set (take (nat (1 + 2)) ?dat). py_float example_lib (strip l) \<noteq> None"
    by (simp add: example_floats numeral_3_eq_3 del: not_None_eq)
  show ?thesis
    by (rule load_too_many_lines [of ?fs "''model.txt''" ?text "''Input size 1\<newline>''" ?dat example_lib 1 init])
      (rule 1 2 3 4 5)+
qed

text \<open>
  Claim C10 as stated fails when one of the first \<open>d + 2\<close> lines is not a number:
  \<open>ValueError\<close> escapes before the surplus line is reached.
\<close>

theorem load_too_many_lines_counterexample:
  "filter nonblank (readlines ''Input size 1\<newline>abc\<newline>0.0\<newline>0.5\<newline>1.0\<newline>'') =
     [''Input size 1\<newline>'', ''abc\<newline>'', ''0.0\<newline>'', ''0.5\<newline>'', ''1.0\<newline>''] \<and>
   header_declares example_lib ''Input size 1\<newline>'' 1 \<and>
   1 + 2 < int (length [''abc\<newline>'', ''0.0\<newline>'', ''0.5\<newline>'', ''1.0\<newline>'']) \<and>
   fst (load example_lib init ''model.txt''
         [''model.txt'' \<mapsto> ''Input size 1\<newline>abc\<newline>0.0\<newline>0.5\<newline>1.0\<newline>'']) = Inl ValueError \<and>
   Inl ValueError \<noteq> (Inl CorruptFileError :: error + unit)"
  by (simp add: text_eval load_def load_np_def CorruptFileError_def)

end
